theory Spec2Isabelle
  imports Complex_Main
begin

section \<open>Strings, dates and amounts\<close>

text \<open>
  A Python \<^verbatim>\<open>str\<close> is a sequence of Unicode code points: the templates of
  \<^verbatim>\<open>ai_service.py\<close> hold Hebrew text, the meeting title holds an en dash (U+2013) and
  \<^verbatim>\<open>str.strip\<close> removes Unicode white space. A string is therefore a list of code points;
  \<open>u\<close> reads an ASCII literal.
\<close>

type_synonym codepoint = nat
type_synonym str = "codepoint list"
type_synonym bytes = "char list"

definition u :: "string \<Rightarrow> str" where
  "u cs = map of_char cs"

text \<open>U+2013, the dash of the title and of the email subject.\<close>

definition en_dash :: codepoint where
  "en_dash = 8211"

text \<open>
  \<^verbatim>\<open>str.isspace\<close> on one code point, which is what \<^verbatim>\<open>str.strip()\<close> without
  arguments removes: U+0009..U+000D, U+001C..U+0020, U+0085, U+00A0, U+1680,
  U+2000..U+200A, U+2028, U+2029, U+202F, U+205F, U+3000.
\<close>

definition isspace :: "codepoint \<Rightarrow> bool" where
  "isspace c \<longleftrightarrow>
     (9 \<le> c \<and> c \<le> 13) \<or> (28 \<le> c \<and> c \<le> 32) \<or> c = 133 \<or> c = 160 \<or> c = 5760 \<or>
     (8192 \<le> c \<and> c \<le> 8202) \<or> c = 8232 \<or> c = 8233 \<or> c = 8239 \<or> c = 8287 \<or> c = 12288"

definition lstrip :: "str \<Rightarrow> str" where
  "lstrip s = dropWhile isspace s"

definition rstrip :: "str \<Rightarrow> str" where
  "rstrip s = rev (dropWhile isspace (rev s))"

definition strip :: "str \<Rightarrow> str" where
  "strip s = rstrip (lstrip s)"

text \<open>\<^verbatim>\<open>x or default\<close> on an optional string: \<^verbatim>\<open>None\<close> and \<^verbatim>\<open>""\<close> are falsy.\<close>

definition or_default :: "str option \<Rightarrow> str \<Rightarrow> str" where
  "or_default x d = (case x of None \<Rightarrow> d | Some s \<Rightarrow> if s = [] then d else s)"

text \<open>\<^verbatim>\<open>str.startswith\<close>.\<close>

definition startswith :: "str \<Rightarrow> str \<Rightarrow> bool" where
  "startswith s p \<longleftrightarrow> take (length p) s = p"

text \<open>
  \<^verbatim>\<open>datetime.date\<close> and \<^verbatim>\<open>strftime('%Y-%m-%d')\<close>. CPython hands the format to the C
  library: month and day are two digits, zero-padded; the year is written without padding
  (glibc, the C library of the Linux deployments of this stack; other C libraries pad it
  to four digits, and the two agree from the year 1000 on).
\<close>

record date =
  year :: nat
  month :: nat
  day :: nat

fun digits :: "nat \<Rightarrow> str" where
  "digits n = (if n < 10 then [48 + n] else digits (n div 10) @ [48 + n mod 10])"

definition zero_pad :: "nat \<Rightarrow> nat \<Rightarrow> str" where
  "zero_pad w n = replicate (w - length (digits n)) 48 @ digits n"

definition strftime_ymd :: "date \<Rightarrow> str" where
  "strftime_ymd d = digits (year d) @ u ''-'' @ zero_pad 2 (month d) @ u ''-'' @ zero_pad 2 (day d)"


text \<open>
  What the database driver takes as text: code points that UTF-8 encodes, without
  U+0000. A statement that carries any other string is refused.
\<close>

definition pg_text :: "str \<Rightarrow> bool" where
  "pg_text s = list_all (\<lambda>c. 0 < c \<and> c < 1114112 \<and> \<not> (55296 \<le> c \<and> c \<le> 57343)) s"

definition pg_text_opt :: "str option \<Rightarrow> bool" where
  "pg_text_opt x = (case x of None \<Rightarrow> True | Some s \<Rightarrow> pg_text s)"

text \<open>The range of an \<^verbatim>\<open>Integer\<close> column (four bytes, signed).\<close>

definition int4 :: "int \<Rightarrow> bool" where
  "int4 v \<longleftrightarrow> - 2147483648 \<le> v \<and> v \<le> 2147483647"

text \<open>
  A \<^verbatim>\<open>uuid.UUID\<close> is its 128-bit number. \<^verbatim>\<open>str(uuid)\<close> writes the number on 32
  hexadecimal digits, small letters, grouped 8-4-4-4-12.
\<close>

type_synonym uuid = nat

definition hex_digit :: "nat \<Rightarrow> codepoint" where
  "hex_digit n = (if n < 10 then 48 + n else 87 + n)"

fun hex_pad :: "nat \<Rightarrow> nat \<Rightarrow> str" where
  "hex_pad 0 v = []"
| "hex_pad (Suc w) v = hex_pad w (v div 16) @ [hex_digit (v mod 16)]"

definition uuid_str :: "uuid \<Rightarrow> str" where
  "uuid_str v =
     (let h = hex_pad 32 v
      in take 8 h @ u ''-'' @ take 4 (drop 8 h) @ u ''-'' @ take 4 (drop 12 h) @ u ''-'' @
         take 4 (drop 16 h) @ u ''-'' @ drop 20 h)"

section \<open>The entity schema (models.py)\<close>

text \<open>
  One record per mapped class, one field per column the handlers read or write. The
  identifiers are \<^verbatim>\<open>UUID(as_uuid=True)\<close> columns. The server-side timestamps
  (\<^verbatim>\<open>created_at\<close>, \<^verbatim>\<open>updated_at\<close>, \<^verbatim>\<open>uploaded_at\<close>) are left out: no handler reads them.
  A \<^verbatim>\<open>Numeric(14, 2)\<close> column holds a number of hundredths.
\<close>

record customer =
  c_id :: uuid
  c_name :: str
  c_logo_url :: "str option"
  c_arr_usd :: "int option"
  c_notes :: "str option"
  c_created_by :: "uuid option"

record contact =
  ct_id :: uuid
  ct_customer_id :: uuid
  ct_name :: str
  ct_role :: "str option"
  ct_phone :: "str option"
  ct_email :: "str option"

record meeting =
  m_id :: uuid
  m_customer_id :: uuid
  m_meeting_date :: date
  m_title_hint :: "str option"
  m_raw_notes :: "str option"
  m_created_by :: "uuid option"

record meeting_asset =
  a_id :: uuid
  a_meeting_id :: uuid
  a_kind :: str
  a_file_url :: str
  a_file_name :: "str option"

record meeting_summary =
  s_id :: uuid
  s_meeting_id :: uuid
  s_version :: int
  s_language :: str
  s_summary_md :: str
  s_model :: str
  s_prompt_template_version :: "str option"
  s_created_by_ai :: bool

record email_draft =
  d_id :: uuid
  d_meeting_id :: uuid
  d_version :: int
  d_subject :: str
  d_body_html :: str
  d_to_emails :: "str list"
  d_cc_emails :: "str list"
  d_language :: str
  d_created_by_ai :: bool

text \<open>
  \<^verbatim>\<open>Meeting.title\<close>:
  \<^verbatim>\<open>
    date_str = self.meeting_date.strftime('%Y-%m-%d')
    hint = self._title_hint.strip() if self._title_hint and self._title_hint.strip() else 'Meeting'
    return f"{date_str} - {hint}"      (the dash is U+2013)
  \<close>
\<close>

definition title :: "meeting \<Rightarrow> str" where
  "title m =
     (let date_str = strftime_ymd (m_meeting_date m);
          hint = (case m_title_hint m of
                    None \<Rightarrow> u ''Meeting''
                  | Some h \<Rightarrow> if h \<noteq> [] \<and> strip h \<noteq> [] then strip h else u ''Meeting'')
      in date_str @ u '' '' @ [en_dash] @ u '' '' @ hint)"

section \<open>The content generator (ai_service.py)\<close>

text \<open>
  The literal pieces of the four templates, in the order of the source, one constant per
  piece between two interpolated fields. Hebrew text is written as code points.
\<close>

definition summary_he_1 :: str where
  "summary_he_1 =
     u ''\<newline>'' @
     [35, 32, 1505, 1497, 1499, 1493, 1501, 32, 1508, 1490, 1497, 1513, 1492, 32, 45, 32]"

definition summary_he_2 :: str where
  "summary_he_2 =
     u ''\<newline>'' @
     u ''\<newline>'' @
     [35, 35, 32, 1505, 1491, 1512, 32, 1497, 1493, 1501, 10] @
     [45, 32, 1491, 1497, 1493, 1503, 32, 1489, 1504, 1493, 1513, 1488, 1497, 1501, 32, 1506, 1497, 1511, 1512, 1497, 1497, 1501, 10] @
     [45, 32, 1492, 1495, 1500, 1496, 1493, 1514, 32, 1513, 1492, 1514, 1511, 1489, 1500, 1493, 10] @
     u ''\<newline>'' @
     [35, 35, 32, 1492, 1495, 1500, 1496, 1493, 1514, 32, 1502, 1512, 1499, 1494, 1497, 1493, 1514, 10]"

definition summary_he_3 :: str where
  "summary_he_3 =
     u ''\<newline>'' @
     u ''\<newline>'' @
     [35, 35, 32, 1508, 1506, 1493, 1500, 1493, 1514, 32, 1504, 1491, 1512, 1513, 1493, 1514, 10] @
     [45, 32, 91, 32, 93, 32, 1502, 1506, 1511, 1489, 32, 1488, 1495, 1512, 32, 1492, 1495, 1500, 1496, 1493, 1514, 10] @
     [45, 32, 91, 32, 93, 32, 1514, 1497, 1488, 1493, 1501, 32, 1508, 1490, 1497, 1513, 1492, 32, 1492, 1489, 1488, 1492, 10] @
     u ''\<newline>'' @
     [35, 35, 32, 1510, 1506, 1491, 1497, 1501, 32, 1492, 1489, 1488, 1497, 1501, 10] @
     [45, 32, 1492, 1502, 1513, 1498, 32, 1514, 1497, 1488, 1493, 1501, 10] @
     [45, 32, 1491, 1497, 1493, 1493, 1495, 32, 1500, 1510, 1493, 1493, 1514, 10] @
     u ''\<newline>'' @
     [35, 35, 32, 1492, 1513, 1508, 1506, 1492, 32, 1506, 1500, 32, 65, 82, 82, 10] @
     [1500, 1488, 32, 1510, 1493, 1497, 1503, 10]"

definition summary_en_1 :: str where
  "summary_en_1 =
     u ''\<newline>'' @
     u ''# Meeting Summary - ''"

definition summary_en_2 :: str where
  "summary_en_2 =
     u ''\<newline>'' @
     u ''\<newline>'' @
     u ''## Agenda\<newline>'' @
     u ''- Discussion of key topics\<newline>'' @
     u ''- Decisions made\<newline>'' @
     u ''\<newline>'' @
     u ''## Key Decisions\<newline>''"

definition summary_en_3 :: str where
  "summary_en_3 =
     u ''\<newline>'' @
     u ''\<newline>'' @
     u ''## Action Items\<newline>'' @
     u ''- [ ] Follow up on decisions\<newline>'' @
     u ''- [ ] Schedule next meeting\<newline>'' @
     u ''\<newline>'' @
     u ''## Next Steps\<newline>'' @
     u ''- Continue coordination\<newline>'' @
     u ''- Report to team\<newline>'' @
     u ''\<newline>'' @
     u ''## ARR Impact\<newline>'' @
     u ''Not specified\<newline>''"

definition body_he_1 :: str where
  "body_he_1 =
     u ''\<newline>'' @
     [60, 100, 105, 118, 32, 100, 105, 114, 61, 34, 114, 116, 108, 34, 62, 10] @
     [60, 112, 62, 1513, 1500, 1493, 1501, 44, 60, 47, 112, 62, 10] @
     u ''\<newline>'' @
     [60, 112, 62, 1488, 1504, 1497, 32, 1513, 1493, 1500, 1495, 47, 1514, 32, 1505, 1497, 1499, 1493, 1501, 32, 1492, 1508, 1490, 1497, 1513, 1492, 32, 1513, 1500, 1504, 1493, 32, 1502, 1492, 1497, 1493, 1501, 32, 40]"

definition body_he_2 :: str where
  "body_he_2 =
     [41, 32, 1506, 1501, 32]"

definition body_he_3 :: str where
  "body_he_3 =
     u ''.</p>\<newline>'' @
     u ''\<newline>'' @
     [60, 104, 51, 62, 1504, 1493, 1513, 1488, 1497, 1501, 32, 1506, 1497, 1511, 1512, 1497, 1497, 1501, 32, 1513, 1504, 1491, 1493, 1504, 1493, 58, 60, 47, 104, 51, 62, 10] @
     u ''<ul>\<newline>'' @
     u ''<li>''"

definition body_he_4 :: str where
  "body_he_4 =
     u ''</li>\<newline>'' @
     u ''</ul>\<newline>'' @
     u ''\<newline>'' @
     [60, 104, 51, 62, 1508, 1506, 1493, 1500, 1493, 1514, 32, 1504, 1491, 1512, 1513, 1493, 1514, 58, 60, 47, 104, 51, 62, 10] @
     u ''<ul>\<newline>'' @
     [60, 108, 105, 62, 1502, 1506, 1511, 1489, 32, 1488, 1495, 1512, 32, 1492, 1495, 1500, 1496, 1493, 1514, 32, 1513, 1492, 1514, 1511, 1489, 1500, 1493, 60, 47, 108, 105, 62, 10] @
     [60, 108, 105, 62, 1514, 1497, 1488, 1493, 1501, 32, 1492, 1508, 1490, 1497, 1513, 1492, 32, 1492, 1489, 1488, 1492, 60, 47, 108, 105, 62, 10] @
     u ''</ul>\<newline>'' @
     u ''\<newline>'' @
     [60, 112, 62, 1488, 1513, 1502, 1495, 32, 1500, 1513, 1502, 1493, 1506, 32, 1492, 1506, 1512, 1493, 1514, 32, 1488, 1493, 32, 1513, 1488, 1500, 1493, 1514, 46, 60, 47, 112, 62, 10] @
     u ''\<newline>'' @
     [60, 112, 62, 1514, 1493, 1491, 1492, 44, 60, 98, 114, 62, 10] @
     [91, 1492, 1513, 1501, 32, 1513, 1500, 1498, 93, 60, 47, 112, 62, 10] @
     u ''</div>\<newline>''"

definition body_en_1 :: str where
  "body_en_1 =
     u ''\<newline>'' @
     u ''<p>Hello,</p>\<newline>'' @
     u ''\<newline>'' @
     u ''<p>I'm sending a summary of our meeting today (''"

definition body_en_2 :: str where
  "body_en_2 =
     u '') with ''"

definition body_en_3 :: str where
  "body_en_3 =
     u ''.</p>\<newline>'' @
     u ''\<newline>'' @
     u ''<h3>Key Topics Discussed:</h3>\<newline>'' @
     u ''<ul>\<newline>'' @
     u ''<li>''"

definition body_en_4 :: str where
  "body_en_4 =
     u ''</li>\<newline>'' @
     u ''</ul>\<newline>'' @
     u ''\<newline>'' @
     u ''<h3>Action Items:</h3>\<newline>'' @
     u ''<ul>\<newline>'' @
     u ''<li>Follow up on decisions made</li>\<newline>'' @
     u ''<li>Schedule next meeting</li>\<newline>'' @
     u ''</ul>\<newline>'' @
     u ''\<newline>'' @
     u ''<p>Please let me know if you have any questions or feedback.</p>\<newline>'' @
     u ''\<newline>'' @
     u ''<p>Best regards,<br>\<newline>'' @
     u ''[Your Name]</p>\<newline>''"


text \<open>The placeholders of \<^verbatim>\<open>meeting.raw_notes or "..."\<close> and the subject endings.\<close>

definition no_notes_he :: str where
  "no_notes_he = [1488, 1497, 1503, 32, 1492, 1506, 1512, 1493, 1514, 32, 1494, 1502, 1497, 1504, 1493, 1514]"

definition no_notes_en :: str where
  "no_notes_en = u ''No notes available''"

definition no_details_he :: str where
  "no_details_he = [1500, 1488, 32, 1510, 1493, 1497, 1504, 1493, 32, 1508, 1512, 1496, 1497, 1501]"

definition no_details_en :: str where
  "no_details_en = u ''No details provided''"

definition subject_he :: str where
  "subject_he = [1505, 1497, 1499, 1493, 1501, 32, 1508, 1490, 1497, 1513, 1492, 32, 1493, 1510, 1506, 1491,
     1497, 1501, 32, 1492, 1489, 1488, 1497, 1501]"

definition subject_en :: str where
  "subject_en = u ''Meeting Summary & Next Steps''"

text \<open>
  \<^verbatim>\<open>generate_meeting_summary(meeting, language)\<close>: the Hebrew template when the language
  is \<^verbatim>\<open>"he"\<close>, the English one otherwise; the rendered template is stripped.
\<close>

definition generate_meeting_summary :: "meeting \<Rightarrow> str \<Rightarrow> str" where
  "generate_meeting_summary m language =
     (let summary_template =
            (if language = u ''he''
             then summary_he_1 @ title m @ summary_he_2 @
                  or_default (m_raw_notes m) no_notes_he @ summary_he_3
             else summary_en_1 @ title m @ summary_en_2 @
                  or_default (m_raw_notes m) no_notes_en @ summary_en_3)
      in strip summary_template)"

text \<open>
  \<^verbatim>\<open>generate_email_draft(meeting, language)\<close>. The first argument is the value of the
  relationship \<^verbatim>\<open>meeting.customer\<close>. The result is the pair of the dictionary's
  \<^verbatim>\<open>"subject"\<close> and \<^verbatim>\<open>"body"\<close>.
\<close>

definition generate_email_draft :: "customer option \<Rightarrow> meeting \<Rightarrow> str \<Rightarrow> str \<times> str" where
  "generate_email_draft cust m language =
     (let customer_name = (case cust of Some c \<Rightarrow> c_name c | None \<Rightarrow> u ''Customer'');
          meeting_date = strftime_ymd (m_meeting_date m)
      in if language = u ''he''
         then (customer_name @ u '' '' @ [en_dash] @ u '' '' @ meeting_date @
                 u '' '' @ [en_dash] @ u '' '' @ subject_he,
               strip (body_he_1 @ meeting_date @ body_he_2 @ customer_name @ body_he_3 @
                      or_default (m_raw_notes m) no_details_he @ body_he_4))
         else (customer_name @ u '' '' @ [en_dash] @ u '' '' @ meeting_date @
                 u '' '' @ [en_dash] @ u '' '' @ subject_en,
               strip (body_en_1 @ meeting_date @ body_en_2 @ customer_name @ body_en_3 @
                      or_default (m_raw_notes m) no_details_en @ body_en_4)))"

section \<open>Amounts\<close>

text \<open>
  A request carries \<^verbatim>\<open>arr_usd\<close> as a finite \<^verbatim>\<open>Decimal\<close>: a signed coefficient and an
  exponent, denoting \<open>coefficient * 10 ^ exponent\<close>. The column is \<^verbatim>\<open>Numeric(14, 2)\<close>:
  a stored amount has two fractional digits and at most fourteen digits in all. A value
  written to the column is rounded to two fractional digits, ties away from zero, and is
  rejected when the rounded value needs more than twelve integral digits.
\<close>

record decimal =
  coefficient :: int
  exponent :: int

definition dec_val :: "decimal \<Rightarrow> rat" where
  "dec_val d =
     (if 0 \<le> exponent d then of_int (coefficient d) * 10 ^ nat (exponent d)
      else of_int (coefficient d) / 10 ^ nat (- exponent d))"

definition round_half_away :: "rat \<Rightarrow> int" where
  "round_half_away x = (if 0 \<le> x then \<lfloor>x + 1 / 2\<rfloor> else - \<lfloor>- x + 1 / 2\<rfloor>)"

text \<open>The value of a stored number of hundredths.\<close>

definition numeric_val :: "int \<Rightarrow> rat" where
  "numeric_val n = of_int n / 100"

section \<open>Errors and the stored state\<close>

text \<open>
  \<open>HTTPException\<close> carries the status code and the detail. \<open>DatabaseError\<close> is a statement
  the driver or the database refuses (a constraint of models.py, a value its column or its
  type cannot hold); \<open>ResponseValidationError\<close> is a returned object the route's
  \<^verbatim>\<open>response_model\<close> does not accept; \<open>TypeError\<close>, \<open>AttributeError\<close> and \<open>OSError\<close> are
  the Python exceptions. All but the first reach the caller as status 500.
\<close>

datatype error =
    HTTPException nat str
  | DatabaseError
  | ResponseValidationError
  | TypeError
  | AttributeError
  | OSError

definition to_numeric_14_2 :: "decimal \<Rightarrow> error + int" where
  "to_numeric_14_2 d =
     (let n = round_half_away (dec_val d * 100)
      in if \<bar>n\<bar> < 10 ^ 14 then Inr n else Inl DatabaseError)"

text \<open>
  The tables, each as the list of its rows in the order a query without \<^verbatim>\<open>order_by\<close>
  returns them (a new row and a rewritten row come last), and the files under
  \<^verbatim>\<open>data/assets\<close>.
\<close>

record state =
  customers :: "customer list"
  contacts :: "contact list"
  meetings :: "meeting list"
  meeting_assets :: "meeting_asset list"
  meeting_summaries :: "meeting_summary list"
  email_drafts :: "email_draft list"
  files :: "str \<rightharpoonup> bytes"

text \<open>
  A handler takes the state and returns its outcome with the state it leaves. An
  exception before the commit leaves the tables as they were; one after the commit leaves
  them as committed.
\<close>

type_synonym 'a outcome = "(error + 'a) \<times> state"

text \<open>
  \<^verbatim>\<open>db.query(Customer).filter(Customer.id == customer_id).first()\<close>, and the same for
  meetings. The route hands the identifier over as a string and the database reads it as
  a uuid: \<open>uuid_in\<close> is the database's reading of a string, \<open>None\<close> when the string is no
  uuid, which makes the query fail.
\<close>

definition customer_by_id :: "(str \<Rightarrow> uuid option) \<Rightarrow> state \<Rightarrow> str \<Rightarrow> error + customer option" where
  "customer_by_id uuid_in s customer_id =
     (case uuid_in customer_id of
        None \<Rightarrow> Inl DatabaseError
      | Some k \<Rightarrow> Inr (find (\<lambda>c. c_id c = k) (customers s)))"

definition meeting_by_id :: "(str \<Rightarrow> uuid option) \<Rightarrow> state \<Rightarrow> str \<Rightarrow> error + meeting option" where
  "meeting_by_id uuid_in s meeting_id =
     (case uuid_in meeting_id of
        None \<Rightarrow> Inl DatabaseError
      | Some k \<Rightarrow> Inr (find (\<lambda>m. m_id m = k) (meetings s)))"

section \<open>Request and response schemas (schemas.py)\<close>

record customer_create =
  cc_name :: str
  cc_logo_url :: "str option"
  cc_arr_usd :: "decimal option"
  cc_notes :: "str option"

text \<open>
  Every field of \<^verbatim>\<open>CustomerUpdate\<close> is optional with default \<^verbatim>\<open>None\<close>; the handler reads
  it with \<^verbatim>\<open>dict(exclude_unset=True)\<close>, which tells a field the request did not carry
  (\<open>Unset\<close>) from one it carried, \<^verbatim>\<open>null\<close> included (\<open>Given\<close>). \<open>field_value\<close> is the
  value the request record holds for the field.
\<close>

datatype 'a field = Unset | Given 'a

definition field_value :: "'a option field \<Rightarrow> 'a option" where
  "field_value f = (case f of Unset \<Rightarrow> None | Given v \<Rightarrow> v)"

record customer_update =
  cu_name :: "str option field"
  cu_logo_url :: "str option field"
  cu_arr_usd :: "decimal option field"
  cu_notes :: "str option field"

record contact_create =
  cn_name :: str
  cn_role :: "str option"
  cn_phone :: "str option"
  cn_email :: "str option"

record meeting_create =
  mc_meeting_date :: date
  mc_title_hint :: "str option"
  mc_raw_notes :: "str option"

text \<open>An \<^verbatim>\<open>UploadFile\<close>: the name and the content type of the part may be missing.\<close>

record upload_file =
  filename :: "str option"
  content_type :: "str option"
  content :: bytes

text \<open>
  The response models declare \<^verbatim>\<open>id: str\<close> (and \<^verbatim>\<open>customer_id: str\<close>), and are filled
  from the mapped object, whose \<^verbatim>\<open>id\<close> is a \<^verbatim>\<open>uuid.UUID\<close>. The validation of a string
  field takes a string and nothing else.
\<close>

datatype pyvalue = PyStr str | PyUUID uuid

definition validate_str :: "pyvalue \<Rightarrow> error + str" where
  "validate_str v = (case v of PyStr s \<Rightarrow> Inr s | PyUUID k \<Rightarrow> Inl ResponseValidationError)"

record customer_view =
  cv_id :: str
  cv_name :: str
  cv_logo_url :: "str option"
  cv_arr_usd :: "int option"
  cv_notes :: "str option"

definition as_customer_response :: "customer \<Rightarrow> error + customer_view" where
  "as_customer_response c =
     (case validate_str (PyUUID (c_id c)) of
        Inl e \<Rightarrow> Inl e
      | Inr i \<Rightarrow> Inr \<lparr>cv_id = i, cv_name = c_name c, cv_logo_url = c_logo_url c,
                      cv_arr_usd = c_arr_usd c, cv_notes = c_notes c\<rparr>)"

record contact_view =
  kv_id :: str
  kv_customer_id :: str
  kv_name :: str
  kv_role :: "str option"
  kv_phone :: "str option"
  kv_email :: "str option"

definition as_contact_response :: "contact \<Rightarrow> error + contact_view" where
  "as_contact_response c =
     (case validate_str (PyUUID (ct_id c)) of
        Inl e \<Rightarrow> Inl e
      | Inr i \<Rightarrow>
          (case validate_str (PyUUID (ct_customer_id c)) of
             Inl e \<Rightarrow> Inl e
           | Inr j \<Rightarrow> Inr \<lparr>kv_id = i, kv_customer_id = j, kv_name = ct_name c,
                           kv_role = ct_role c, kv_phone = ct_phone c, kv_email = ct_email c\<rparr>))"

record meeting_view =
  mv_id :: str
  mv_customer_id :: str
  mv_title :: str
  mv_meeting_date :: date
  mv_raw_notes :: "str option"

definition as_meeting_response :: "meeting \<Rightarrow> error + meeting_view" where
  "as_meeting_response m =
     (case validate_str (PyUUID (m_id m)) of
        Inl e \<Rightarrow> Inl e
      | Inr i \<Rightarrow>
          (case validate_str (PyUUID (m_customer_id m)) of
             Inl e \<Rightarrow> Inl e
           | Inr j \<Rightarrow> Inr \<lparr>mv_id = i, mv_customer_id = j, mv_title = title m,
                           mv_meeting_date = m_meeting_date m, mv_raw_notes = m_raw_notes m\<rparr>))"

text \<open>A list response: every item is validated, the first refusal is the outcome.\<close>

fun validate_all :: "('a \<Rightarrow> error + 'b) \<Rightarrow> 'a list \<Rightarrow> error + 'b list" where
  "validate_all f [] = Inr []"
| "validate_all f (x # xs) =
     (case f x of
        Inl e \<Rightarrow> Inl e
      | Inr y \<Rightarrow> (case validate_all f xs of Inl e \<Rightarrow> Inl e | Inr ys \<Rightarrow> Inr (y # ys)))"

section \<open>Customer endpoints (main.py)\<close>

text \<open>
  \<^verbatim>\<open>Customer.name.ilike(pattern)\<close>: in the pattern \<open>%\<close> stands for any sequence of
  characters, \<open>_\<close> for any one character, a backslash makes the character after it stand
  for itself, and any other character stands for itself, all compared after case folding.
  The folding of the database is the parameter \<open>lower\<close>.
\<close>

fun ilike :: "(codepoint \<Rightarrow> codepoint) \<Rightarrow> str \<Rightarrow> str \<Rightarrow> bool" where
  "ilike lower [] s = (s = [])"
| "ilike lower (p # ps) s =
     (if p = 37 then ilike lower ps s \<or> (case s of [] \<Rightarrow> False | _ # t \<Rightarrow> ilike lower (p # ps) t)
      else if p = 95 then (case s of [] \<Rightarrow> False | _ # t \<Rightarrow> ilike lower ps t)
      else if p = 92 then
        (case ps of [] \<Rightarrow> False
         | q # qs \<Rightarrow> (case s of [] \<Rightarrow> False | c # t \<Rightarrow> lower q = lower c \<and> ilike lower qs t))
      else (case s of [] \<Rightarrow> False | c # t \<Rightarrow> lower p = lower c \<and> ilike lower ps t))"

text \<open>
  \<^verbatim>\<open>get_customers(search, limit, offset)\<close>:
  \<^verbatim>\<open>
    query = db.query(Customer)
    if search:
        query = query.filter(Customer.name.ilike(f"%{search}%"))
    customers = query.offset(offset).limit(limit).all()
  \<close>
  \<open>search_rows\<close> is the query before \<^verbatim>\<open>offset\<close> and \<^verbatim>\<open>limit\<close>. The database takes an
  \<^verbatim>\<open>OFFSET\<close> and a \<^verbatim>\<open>LIMIT\<close> from 0 to 2^63 - 1. The route's response model is
  \<^verbatim>\<open>List[CustomerResponse]\<close>.
\<close>

definition search_rows :: "(codepoint \<Rightarrow> codepoint) \<Rightarrow> state \<Rightarrow> str option \<Rightarrow> customer list" where
  "search_rows lower s search =
     (case search of
        None \<Rightarrow> customers s
      | Some t \<Rightarrow> if t = [] then customers s
                 else filter (\<lambda>c. ilike lower (u ''%'' @ t @ u ''%'') (c_name c)) (customers s))"

definition get_customers ::
  "(codepoint \<Rightarrow> codepoint) \<Rightarrow> state \<Rightarrow> str option \<Rightarrow> int \<Rightarrow> int \<Rightarrow> customer_view list outcome" where
  "get_customers lower s search limit offset =
     (if (case search of None \<Rightarrow> False | Some t \<Rightarrow> \<not> pg_text t) \<or>
         offset < 0 \<or> limit < 0 \<or> 2 ^ 63 \<le> offset \<or> 2 ^ 63 \<le> limit
      then (Inl DatabaseError, s)
      else (validate_all as_customer_response
              (take (nat limit) (drop (nat offset) (search_rows lower s search))), s))"

text \<open>
  \<^verbatim>\<open>create_customer\<close>: \<^verbatim>\<open>Customer(**customer.dict(), created_by=current_user.id)\<close>, add,
  commit, refresh, and the object is returned under \<^verbatim>\<open>response_model=CustomerResponse\<close>.
  \<open>new_id\<close> is the value \<^verbatim>\<open>uuid.uuid4\<close> gives the primary key; the insert is rejected
  when the key is taken. \<^verbatim>\<open>arr_usd\<close> has \<^verbatim>\<open>default=0\<close>: the insert leaves out an
  attribute that is \<^verbatim>\<open>None\<close>, and the default fills the column.
\<close>

definition create_customer :: "state \<Rightarrow> customer_create \<Rightarrow> uuid \<Rightarrow> uuid \<Rightarrow> customer_view outcome" where
  "create_customer s customer current_user_id new_id =
     (case (case cc_arr_usd customer of None \<Rightarrow> Inr 0 | Some d \<Rightarrow> to_numeric_14_2 d) of
        Inl e \<Rightarrow> (Inl e, s)
      | Inr arr \<Rightarrow>
          if \<not> (pg_text (cc_name customer) \<and> pg_text_opt (cc_logo_url customer) \<and>
                pg_text_opt (cc_notes customer)) \<or>
             new_id \<in> set (map c_id (customers s))
          then (Inl DatabaseError, s)
          else
            (let db_customer = \<lparr>c_id = new_id, c_name = cc_name customer,
                                c_logo_url = cc_logo_url customer, c_arr_usd = Some arr,
                                c_notes = cc_notes customer, c_created_by = Some current_user_id\<rparr>
             in (as_customer_response db_customer,
                 s\<lparr>customers := customers s @ [db_customer]\<rparr>)))"

definition get_customer :: "(str \<Rightarrow> uuid option) \<Rightarrow> state \<Rightarrow> str \<Rightarrow> customer_view outcome" where
  "get_customer uuid_in s customer_id =
     (case customer_by_id uuid_in s customer_id of
        Inl e \<Rightarrow> (Inl e, s)
      | Inr None \<Rightarrow> (Inl (HTTPException 404 (u ''Customer not found'')), s)
      | Inr (Some customer) \<Rightarrow> (as_customer_response customer, s))"

text \<open>
  \<^verbatim>\<open>update_customer\<close>:
  \<^verbatim>\<open>
    for field, value in customer_update.dict(exclude_unset=True).items():
        setattr(customer, field, value)
    db.commit()
    db.refresh(customer)
    return customer
  \<close>
  \<open>changes\<close>: the commit writes the row only when a value set differs from the value
  loaded. \<open>set_fields\<close> is the loop with the checks of the write; \<open>None\<close> is a write the
  database rejects: \<^verbatim>\<open>name\<close> is \<^verbatim>\<open>nullable=False\<close>, \<^verbatim>\<open>arr_usd\<close> is \<^verbatim>\<open>Numeric(14, 2)\<close>,
  a text must be one the driver takes.
\<close>

definition changes :: "customer \<Rightarrow> customer_update \<Rightarrow> bool" where
  "changes c upd \<longleftrightarrow>
     (case cu_name upd of Unset \<Rightarrow> False | Given v \<Rightarrow> v \<noteq> Some (c_name c)) \<or>
     (case cu_logo_url upd of Unset \<Rightarrow> False | Given v \<Rightarrow> v \<noteq> c_logo_url c) \<or>
     (case cu_arr_usd upd of
        Unset \<Rightarrow> False
      | Given v \<Rightarrow> map_option dec_val v \<noteq> map_option numeric_val (c_arr_usd c)) \<or>
     (case cu_notes upd of Unset \<Rightarrow> False | Given v \<Rightarrow> v \<noteq> c_notes c)"

definition set_fields :: "customer \<Rightarrow> customer_update \<Rightarrow> customer option" where
  "set_fields c upd =
     (case (case cu_name upd of
              Unset \<Rightarrow> Some (c_name c)
            | Given None \<Rightarrow> None
            | Given (Some n) \<Rightarrow> if pg_text n then Some n else None) of
        None \<Rightarrow> None
      | Some name' \<Rightarrow>
          (case (case cu_arr_usd upd of
                   Unset \<Rightarrow> Inr (c_arr_usd c)
                 | Given None \<Rightarrow> Inr None
                 | Given (Some d) \<Rightarrow> map_sum id Some (to_numeric_14_2 d)) of
             Inl e \<Rightarrow> None
           | Inr arr' \<Rightarrow>
               if (case cu_logo_url upd of Unset \<Rightarrow> True | Given v \<Rightarrow> pg_text_opt v) \<and>
                  (case cu_notes upd of Unset \<Rightarrow> True | Given v \<Rightarrow> pg_text_opt v)
               then Some (c\<lparr>c_name := name',
                       c_logo_url := (case cu_logo_url upd of Unset \<Rightarrow> c_logo_url c | Given v \<Rightarrow> v),
                       c_arr_usd := arr',
                       c_notes := (case cu_notes upd of Unset \<Rightarrow> c_notes c | Given v \<Rightarrow> v)\<rparr>)
               else None))"

definition update_customer ::
  "(str \<Rightarrow> uuid option) \<Rightarrow> state \<Rightarrow> str \<Rightarrow> customer_update \<Rightarrow> customer_view outcome" where
  "update_customer uuid_in s customer_id customer_update =
     (case customer_by_id uuid_in s customer_id of
        Inl e \<Rightarrow> (Inl e, s)
      | Inr None \<Rightarrow> (Inl (HTTPException 404 (u ''Customer not found'')), s)
      | Inr (Some customer) \<Rightarrow>
          if \<not> changes customer customer_update then (as_customer_response customer, s)
          else
            (case set_fields customer customer_update of
               None \<Rightarrow> (Inl DatabaseError, s)
             | Some customer' \<Rightarrow>
                 (as_customer_response customer',
                  s\<lparr>customers := filter (\<lambda>c. c_id c \<noteq> c_id customer) (customers s) @ [customer']\<rparr>)))"

text \<open>
  \<^verbatim>\<open>delete_customer\<close>: \<^verbatim>\<open>db.delete(customer)\<close>. The relationships of models.py carry
  \<^verbatim>\<open>cascade="all, delete-orphan"\<close>: deleting a meeting deletes its assets, summaries and
  email drafts; deleting a customer deletes its contacts and, one by one, its meetings.
\<close>

definition delete_meeting :: "uuid \<Rightarrow> state \<Rightarrow> state" where
  "delete_meeting meeting_id s =
     s\<lparr>meetings := filter (\<lambda>m. m_id m \<noteq> meeting_id) (meetings s),
       meeting_assets := filter (\<lambda>a. a_meeting_id a \<noteq> meeting_id) (meeting_assets s),
       meeting_summaries := filter (\<lambda>x. s_meeting_id x \<noteq> meeting_id) (meeting_summaries s),
       email_drafts := filter (\<lambda>d. d_meeting_id d \<noteq> meeting_id) (email_drafts s)\<rparr>"

definition delete_cascade :: "uuid \<Rightarrow> state \<Rightarrow> state" where
  "delete_cascade customer_id s =
     (let s' = fold (\<lambda>m. delete_meeting (m_id m))
                    (filter (\<lambda>m. m_customer_id m = customer_id) (meetings s)) s
      in s'\<lparr>customers := filter (\<lambda>c. c_id c \<noteq> customer_id) (customers s'),
            contacts := filter (\<lambda>c. ct_customer_id c \<noteq> customer_id) (contacts s')\<rparr>)"

definition delete_customer :: "(str \<Rightarrow> uuid option) \<Rightarrow> state \<Rightarrow> str \<Rightarrow> str outcome" where
  "delete_customer uuid_in s customer_id =
     (case customer_by_id uuid_in s customer_id of
        Inl e \<Rightarrow> (Inl e, s)
      | Inr None \<Rightarrow> (Inl (HTTPException 404 (u ''Customer not found'')), s)
      | Inr (Some customer) \<Rightarrow>
          (Inr (u ''Customer deleted successfully''), delete_cascade (c_id customer) s))"

section \<open>Contact and meeting endpoints\<close>

text \<open>
  \<^verbatim>\<open>create_contact\<close>. The table's check constraint is
  \<^verbatim>\<open>customer_id IS NOT NULL AND email IS NOT NULL\<close>: a contact without email is rejected.
  The route's response model is \<^verbatim>\<open>ContactResponse\<close>.
\<close>

definition create_contact ::
  "(str \<Rightarrow> uuid option) \<Rightarrow> state \<Rightarrow> str \<Rightarrow> contact_create \<Rightarrow> uuid \<Rightarrow> contact_view outcome" where
  "create_contact uuid_in s customer_id contact new_id =
     (case customer_by_id uuid_in s customer_id of
        Inl e \<Rightarrow> (Inl e, s)
      | Inr None \<Rightarrow> (Inl (HTTPException 404 (u ''Customer not found'')), s)
      | Inr (Some customer) \<Rightarrow>
          if cn_email contact = None \<or>
             \<not> (pg_text (cn_name contact) \<and> pg_text_opt (cn_role contact) \<and>
                pg_text_opt (cn_phone contact) \<and> pg_text_opt (cn_email contact)) \<or>
             new_id \<in> set (map ct_id (contacts s))
          then (Inl DatabaseError, s)
          else
            (let db_contact = \<lparr>ct_id = new_id, ct_customer_id = c_id customer,
                               ct_name = cn_name contact, ct_role = cn_role contact,
                               ct_phone = cn_phone contact, ct_email = cn_email contact\<rparr>
             in (as_contact_response db_contact, s\<lparr>contacts := contacts s @ [db_contact]\<rparr>)))"

text \<open>
  \<^verbatim>\<open>get_customer_meetings\<close>: the meetings of the customer, latest date first, meetings of
  one date in the order of the table. The handler does not look the customer up. The
  route's response model is \<^verbatim>\<open>List[MeetingResponse]\<close>.
\<close>

definition date_key :: "date \<Rightarrow> nat" where
  "date_key d = (year d * 100 + month d) * 100 + day d"

definition get_customer_meetings ::
  "(str \<Rightarrow> uuid option) \<Rightarrow> state \<Rightarrow> str \<Rightarrow> meeting_view list outcome" where
  "get_customer_meetings uuid_in s customer_id =
     (case uuid_in customer_id of
        None \<Rightarrow> (Inl DatabaseError, s)
      | Some k \<Rightarrow>
          (validate_all as_meeting_response
             (sort_key (\<lambda>m. - int (date_key (m_meeting_date m)))
                (filter (\<lambda>m. m_customer_id m = k) (meetings s))), s))"

text \<open>
  \<^verbatim>\<open>create_meeting\<close>: after the lookup,
  \<^verbatim>\<open>Meeting(**meeting.dict(), customer_id=customer_id, created_by=current_user.id)\<close>. The
  dictionary has the key \<^verbatim>\<open>title_hint\<close>; the mapped class has the column
  \<^verbatim>\<open>_title_hint\<close> and the property \<^verbatim>\<open>title\<close>, and no attribute \<^verbatim>\<open>title_hint\<close>, so the
  declarative constructor raises \<^verbatim>\<open>TypeError\<close> before anything is added.
\<close>

definition create_meeting ::
  "(str \<Rightarrow> uuid option) \<Rightarrow> state \<Rightarrow> str \<Rightarrow> meeting_create \<Rightarrow> uuid \<Rightarrow> uuid \<Rightarrow> meeting_view outcome" where
  "create_meeting uuid_in s customer_id meeting current_user_id new_id =
     (case customer_by_id uuid_in s customer_id of
        Inl e \<Rightarrow> (Inl e, s)
      | Inr None \<Rightarrow> (Inl (HTTPException 404 (u ''Customer not found'')), s)
      | Inr (Some customer) \<Rightarrow> (Inl TypeError, s))"

definition get_meeting :: "(str \<Rightarrow> uuid option) \<Rightarrow> state \<Rightarrow> str \<Rightarrow> meeting_view outcome" where
  "get_meeting uuid_in s meeting_id =
     (case meeting_by_id uuid_in s meeting_id of
        Inl e \<Rightarrow> (Inl e, s)
      | Inr None \<Rightarrow> (Inl (HTTPException 404 (u ''Meeting not found'')), s)
      | Inr (Some meeting) \<Rightarrow> (as_meeting_response meeting, s))"

text \<open>
  \<^verbatim>\<open>upload_meeting_asset\<close>:
  \<^verbatim>\<open>
    file_path = f"data/assets/{meeting_id}/{file.filename}"
    os.makedirs(os.path.dirname(file_path), exist_ok=True)
    with open(file_path, "wb") as buffer:
        content = await file.read()
        buffer.write(content)
    asset = MeetingAsset(meeting_id=meeting_id,
        kind="image" if file.content_type.startswith("image/") else "file",
        file_url=file_path, file_name=file.filename)
    db.add(asset); db.commit()
    return {"message": "Asset uploaded successfully", "asset_id": str(asset.id)}
  \<close>
  The path is built from the string of the route. Creating the directory and opening the
  file are the operating system's: \<open>writable files path\<close> tells whether they succeed on
  the file system that holds these files (they do not when the name is empty, a dot or
  two dots, for one). An f-string renders a missing file name as \<^verbatim>\<open>None\<close>;
  \<^verbatim>\<open>startswith\<close> on a missing content type raises, after the file is written. The result
  is the \<^verbatim>\<open>asset_id\<close> of the answer.
\<close>

definition upload_meeting_asset ::
  "(str \<Rightarrow> uuid option) \<Rightarrow> ((str \<rightharpoonup> bytes) \<Rightarrow> str \<Rightarrow> bool) \<Rightarrow>
   state \<Rightarrow> str \<Rightarrow> upload_file \<Rightarrow> uuid \<Rightarrow> str outcome" where
  "upload_meeting_asset uuid_in writable s meeting_id file new_id =
     (case meeting_by_id uuid_in s meeting_id of
        Inl e \<Rightarrow> (Inl e, s)
      | Inr None \<Rightarrow> (Inl (HTTPException 404 (u ''Meeting not found'')), s)
      | Inr (Some meeting) \<Rightarrow>
          (let file_path = u ''data/assets/'' @ meeting_id @ u ''/'' @
                           (case filename file of None \<Rightarrow> u ''None'' | Some n \<Rightarrow> n)
           in if \<not> writable (files s) file_path then (Inl OSError, s)
              else
                (let s1 = s\<lparr>files := (files s)(file_path \<mapsto> content file)\<rparr>
                 in case content_type file of
                      None \<Rightarrow> (Inl AttributeError, s1)
                    | Some ct \<Rightarrow>
                        (let asset = \<lparr>a_id = new_id, a_meeting_id = m_id meeting,
                                      a_kind = (if startswith ct (u ''image/'') then u ''image''
                                                else u ''file''),
                                      a_file_url = file_path, a_file_name = filename file\<rparr>
                         in if \<not> (pg_text file_path \<and> pg_text_opt (filename file)) \<or>
                               new_id \<in> set (map a_id (meeting_assets s1))
                            then (Inl DatabaseError, s1)
                            else (Inr (uuid_str new_id),
                                  s1\<lparr>meeting_assets := meeting_assets s1 @ [asset]\<rparr>)))))"

section \<open>AI endpoints\<close>

text \<open>
  \<^verbatim>\<open>query.order_by(version.desc()).first()\<close>: the first row of the rows sorted by
  descending version, if there is one.
\<close>

definition latest_by :: "('a \<Rightarrow> int) \<Rightarrow> 'a list \<Rightarrow> 'a option" where
  "latest_by version rows = (case sort_key (\<lambda>r. - version r) rows of [] \<Rightarrow> None | r # _ \<Rightarrow> Some r)"

record summary_response =
  summary_id :: str
  sr_version :: int
  sr_language :: str

text \<open>
  \<^verbatim>\<open>create_ai_summary\<close>. The insert is rejected when the version is out of the range of
  its \<^verbatim>\<open>Integer\<close> column, when a text is not one the driver takes, or when the key is
  taken. The answer is a dictionary, with \<^verbatim>\<open>str(summary.id)\<close>.
\<close>

definition create_ai_summary ::
  "(str \<Rightarrow> uuid option) \<Rightarrow> state \<Rightarrow> str \<Rightarrow> str \<Rightarrow> uuid \<Rightarrow> summary_response outcome" where
  "create_ai_summary uuid_in s meeting_id language new_id =
     (case meeting_by_id uuid_in s meeting_id of
        Inl e \<Rightarrow> (Inl e, s)
      | Inr None \<Rightarrow> (Inl (HTTPException 404 (u ''Meeting not found'')), s)
      | Inr (Some meeting) \<Rightarrow>
          (let latest_summary = latest_by s_version
                  (filter (\<lambda>x. s_meeting_id x = m_id meeting) (meeting_summaries s));
               next_version = (case latest_summary of Some l \<Rightarrow> s_version l + 1 | None \<Rightarrow> 1);
               summary_text = generate_meeting_summary meeting language;
               summary = \<lparr>s_id = new_id, s_meeting_id = m_id meeting, s_version = next_version,
                          s_language = language, s_summary_md = summary_text,
                          s_model = u ''gpt-4'', s_prompt_template_version = Some (u ''v1.0''),
                          s_created_by_ai = True\<rparr>
           in if \<not> int4 next_version \<or> \<not> (pg_text language \<and> pg_text summary_text) \<or>
                 new_id \<in> set (map s_id (meeting_summaries s))
              then (Inl DatabaseError, s)
              else (Inr \<lparr>summary_id = uuid_str (s_id summary), sr_version = s_version summary,
                         sr_language = s_language summary\<rparr>,
                    s\<lparr>meeting_summaries := meeting_summaries s @ [summary]\<rparr>)))"

record draft_response =
  email_draft_id :: str
  dr_version :: int
  dr_subject :: str

text \<open>
  \<^verbatim>\<open>create_email_draft\<close>; the contacts are those of the meeting's customer with an
  email, \<^verbatim>\<open>contacts[:2]\<close> go to \<^verbatim>\<open>to_emails\<close> and \<^verbatim>\<open>contacts[2:]\<close> to \<^verbatim>\<open>cc_emails\<close>. The
  insert is rejected as that of a summary is.
\<close>

definition create_email_draft ::
  "(str \<Rightarrow> uuid option) \<Rightarrow> state \<Rightarrow> str \<Rightarrow> str \<Rightarrow> uuid \<Rightarrow> draft_response outcome" where
  "create_email_draft uuid_in s meeting_id language new_id =
     (case meeting_by_id uuid_in s meeting_id of
        Inl e \<Rightarrow> (Inl e, s)
      | Inr None \<Rightarrow> (Inl (HTTPException 404 (u ''Meeting not found'')), s)
      | Inr (Some meeting) \<Rightarrow>
          (let latest_draft = latest_by d_version
                  (filter (\<lambda>d. d_meeting_id d = m_id meeting) (email_drafts s));
               next_version = (case latest_draft of Some l \<Rightarrow> d_version l + 1 | None \<Rightarrow> 1);
               email_content = generate_email_draft
                                 (find (\<lambda>c. c_id c = m_customer_id meeting) (customers s))
                                 meeting language;
               cs = filter (\<lambda>c. ct_customer_id c = m_customer_id meeting \<and> ct_email c \<noteq> None)
                      (contacts s);
               to_emails = map (\<lambda>c. the (ct_email c)) (take 2 cs);
               cc_emails = map (\<lambda>c. the (ct_email c)) (drop 2 cs);
               draft = \<lparr>d_id = new_id, d_meeting_id = m_id meeting, d_version = next_version,
                        d_subject = fst email_content, d_body_html = snd email_content,
                        d_to_emails = to_emails, d_cc_emails = cc_emails,
                        d_language = language, d_created_by_ai = True\<rparr>
           in if \<not> int4 next_version \<or>
                 \<not> (pg_text language \<and> pg_text (fst email_content) \<and> pg_text (snd email_content) \<and>
                    list_all pg_text (to_emails @ cc_emails)) \<or>
                 new_id \<in> set (map d_id (email_drafts s))
              then (Inl DatabaseError, s)
              else (Inr \<lparr>email_draft_id = uuid_str (d_id draft), dr_version = d_version draft,
                         dr_subject = d_subject draft\<rparr>,
                    s\<lparr>email_drafts := email_drafts s @ [draft]\<rparr>)))"

section \<open>Reading the state\<close>



text \<open>
  The words of the specification for the search: the name contains the term as a
  substring, compared case-insensitively, that is after the folding \<open>lower\<close>.
\<close>

fun spec_contains :: "(codepoint \<Rightarrow> codepoint) \<Rightarrow> str \<Rightarrow> str \<Rightarrow> bool" where
  "spec_contains lower t [] = (t = [])"
| "spec_contains lower t (c # cs) =
     (map lower (take (length t) (c # cs)) = map lower t \<or> spec_contains lower t cs)"

section \<open>The parameters of the closed instances\<close>

text \<open>
  PostgreSQL's reading of a uuid: sixteen bytes of two hexadecimal digits each, of either
  case, a hyphen allowed after every second byte but the last, the whole allowed in
  braces.
\<close>

definition xdigit :: "codepoint \<Rightarrow> bool" where
  "xdigit c \<longleftrightarrow> (48 \<le> c \<and> c \<le> 57) \<or> (65 \<le> c \<and> c \<le> 70) \<or> (97 \<le> c \<and> c \<le> 102)"

definition hexval :: "codepoint \<Rightarrow> nat" where
  "hexval c = (if c \<le> 57 then c - 48 else if c \<le> 70 then c - 55 else c - 87)"

fun pg_uuid_bytes :: "nat \<Rightarrow> str \<Rightarrow> nat \<Rightarrow> (nat \<times> str) option" where
  "pg_uuid_bytes 0 src acc = Some (acc, src)"
| "pg_uuid_bytes (Suc n) src acc =
     (case src of
        a # b # rest \<Rightarrow>
          if xdigit a \<and> xdigit b
          then pg_uuid_bytes n
                 (if odd (15 - n) \<and> 0 < n \<and> rest \<noteq> [] \<and> hd rest = 45 then tl rest else rest)
                 (acc * 256 + hexval a * 16 + hexval b)
          else None
      | _ \<Rightarrow> None)"

definition pg_uuid_in :: "str \<Rightarrow> uuid option" where
  "pg_uuid_in s =
     (let braces = (s \<noteq> [] \<and> hd s = 123);
          src = (if braces then tl s else s)
      in case pg_uuid_bytes 16 src 0 of
           None \<Rightarrow> None
         | Some (v, rest) \<Rightarrow> if rest = (if braces then [125] else []) then Some v else None)"

text \<open>A folding: ASCII capitals to small letters.\<close>

definition ascii_lower :: "codepoint \<Rightarrow> codepoint" where
  "ascii_lower c = (if 65 \<le> c \<and> c \<le> 90 then c + 32 else c)"


text \<open>A small store: one customer with three contacts and one meeting.\<close>

definition customer_1 :: str where
  "customer_1 = u ''00000000-0000-0000-0000-0000000000c1''"


definition demo_customer :: customer where
  "demo_customer = \<lparr>c_id = 193, c_name = u ''Acme'', c_logo_url = None,
     c_arr_usd = Some 120000, c_notes = Some (u ''old''), c_created_by = None\<rparr>"

definition demo_contacts :: "contact list" where
  "demo_contacts =
     [\<lparr>ct_id = 177, ct_customer_id = 193, ct_name = u ''Ann'', ct_role = None,
       ct_phone = None, ct_email = Some (u ''ann@acme.io'')\<rparr>,
      \<lparr>ct_id = 178, ct_customer_id = 193, ct_name = u ''Bob'', ct_role = None,
       ct_phone = None, ct_email = Some (u ''bob@acme.io'')\<rparr>,
      \<lparr>ct_id = 179, ct_customer_id = 193, ct_name = u ''Cy'', ct_role = None,
       ct_phone = None, ct_email = Some (u ''cy@acme.io'')\<rparr>]"

definition demo_meeting :: meeting where
  "demo_meeting = \<lparr>m_id = 161, m_customer_id = 193,
     m_meeting_date = \<lparr>year = 2024, month = 1, day = 15\<rparr>,
     m_title_hint = Some (u ''Kickoff''), m_raw_notes = None, m_created_by = None\<rparr>"

definition demo_state :: state where
  "demo_state = \<lparr>customers = [demo_customer], contacts = demo_contacts,
     meetings = [demo_meeting], meeting_assets = [], meeting_summaries = [],
     email_drafts = [], files = Map.empty\<rparr>"

section \<open>Lemmas on strings\<close>

lemma lstrip_spaces: "\<forall>c \<in> set ws. isspace c \<Longrightarrow> \<not> isspace a \<Longrightarrow> lstrip (ws @ a # s) = a # s"
  by (simp add: lstrip_def dropWhile_append3)

lemma rstrip_spaces: "\<forall>c \<in> set ws. isspace c \<Longrightarrow> \<not> isspace b \<Longrightarrow> rstrip (s @ b # ws) = s @ [b]"
  by (simp add: rstrip_def dropWhile_append3)

lemma strip_spaces:
  assumes "\<forall>c \<in> set ws. isspace c" and "\<forall>c \<in> set ws'. isspace c"
    and "\<not> isspace a" and "\<not> isspace b"
  shows "strip (ws @ a # s @ b # ws') = a # s @ [b]"
proof -
  have "lstrip (ws @ a # s @ b # ws') = (a # s) @ b # ws'"
    using assms(1,3) by (simp add: lstrip_spaces)
  then show ?thesis
    using rstrip_spaces [OF assms(2,4), of "a # s"] by (simp add: strip_def)
qed

lemma strip_all_spaces:
  assumes "\<forall>c \<in> set s. isspace c"
  shows "strip s = []"
proof -
  have e: "dropWhile isspace s = []" using assms by (induction s) auto
  show ?thesis unfolding strip_def lstrip_def rstrip_def e by simp
qed

lemma strip_eq_Nil_iff: "strip s = [] \<longleftrightarrow> (\<forall>c \<in> set s. isspace c)"
proof
  assume e: "strip s = []"
  show "\<forall>c \<in> set s. isspace c"
  proof (rule ccontr)
    assume "\<not> (\<forall>c \<in> set s. isspace c)"
    then have ne: "dropWhile isspace s \<noteq> []" by simp
    then have "\<not> isspace (hd (dropWhile isspace s))" by (rule hd_dropWhile)
    moreover have "hd (dropWhile isspace s) \<in> set (dropWhile isspace s)" using ne by simp
    ultimately have "\<not> (\<forall>c \<in> set (rev (dropWhile isspace s)). isspace c)" by auto
    then have "dropWhile isspace (rev (dropWhile isspace s)) \<noteq> []" by simp
    with e show False by (simp add: strip_def lstrip_def rstrip_def)
  qed
next
  assume "\<forall>c \<in> set s. isspace c"
  then show "strip s = []" by (rule strip_all_spaces)
qed




section \<open>The derived meeting title\<close>



section \<open>The language of the generated content\<close>

lemma strip_enclosed:
  assumes A: "A = 10 # a # A'" and C: "C = C' @ [b, 10]"
    and a: "\<not> isspace a" and b: "\<not> isspace b"
  shows "strip (A @ X @ C) = tl A @ X @ butlast C"
proof -
  have sp: "\<forall>c \<in> set [10]. isspace c" by (simp add: isspace_def)
  have "A @ X @ C = [10] @ a # (A' @ X @ C') @ b # [10]" by (simp add: A C)
  then have "strip (A @ X @ C) = a # (A' @ X @ C') @ [b]"
    using strip_spaces [OF sp sp a b, of "A' @ X @ C'"] by simp
  also have "\<dots> = tl A @ X @ butlast C" by (simp add: A C butlast_append)
  finally show ?thesis .
qed

lemma summary_he_shape:
  "summary_he_1 = 10 # 35 # tl (tl summary_he_1)"
  "summary_he_3 = butlast (butlast summary_he_3) @ [1503, 10]"
  by (simp_all add: summary_he_1_def summary_he_3_def u_def)

lemma summary_en_shape:
  "summary_en_1 = 10 # 35 # tl (tl summary_en_1)"
  "summary_en_3 = butlast (butlast summary_en_3) @ [100, 10]"
  by (simp_all add: summary_en_1_def summary_en_3_def u_def)

lemma body_he_shape:
  "body_he_1 = 10 # 60 # tl (tl body_he_1)"
  "body_he_4 = butlast (butlast body_he_4) @ [62, 10]"
  by (simp_all add: body_he_1_def body_he_4_def u_def)

lemma not_space: "\<not> isspace 35" "\<not> isspace 1503" "\<not> isspace 100" "\<not> isspace 60" "\<not> isspace 62"
  by (simp_all add: isspace_def)

lemma summary_he_text:
  "generate_meeting_summary m (u ''he'') =
     tl summary_he_1 @ title m @ summary_he_2 @ or_default (m_raw_notes m) no_notes_he @
     butlast summary_he_3"
  using strip_enclosed [OF summary_he_shape not_space(1,2),
      of "title m @ summary_he_2 @ or_default (m_raw_notes m) no_notes_he"]
  by (simp add: generate_meeting_summary_def)

lemma summary_en_text:
  "language \<noteq> u ''he'' \<Longrightarrow> generate_meeting_summary m language =
     tl summary_en_1 @ title m @ summary_en_2 @ or_default (m_raw_notes m) no_notes_en @
     butlast summary_en_3"
  using strip_enclosed [OF summary_en_shape not_space(1,3),
      of "title m @ summary_en_2 @ or_default (m_raw_notes m) no_notes_en"]
  by (simp add: generate_meeting_summary_def)

lemma body_he_text:
  "snd (generate_email_draft cust m (u ''he'')) =
     tl body_he_1 @ strftime_ymd (m_meeting_date m) @ body_he_2 @
     (case cust of Some c \<Rightarrow> c_name c | None \<Rightarrow> u ''Customer'') @ body_he_3 @
     or_default (m_raw_notes m) no_details_he @ butlast body_he_4"
  using strip_enclosed [OF body_he_shape not_space(4,5),
      of "strftime_ymd (m_meeting_date m) @ body_he_2 @
          (case cust of Some c \<Rightarrow> c_name c | None \<Rightarrow> u ''Customer'') @ body_he_3 @
          or_default (m_raw_notes m) no_details_he"]
  by (simp add: generate_email_draft_def Let_def)

lemma en_not_he: "u ''en'' \<noteq> u ''he''"
  by (simp add: u_def)

lemma summary_he_not_en:
  "generate_meeting_summary m (u ''he'') \<noteq> generate_meeting_summary m (u ''en'')"
proof -
  have "generate_meeting_summary m (u ''he'') ! 2 = 1505"
    by (simp add: summary_he_text) (simp add: summary_he_1_def u_def)
  moreover have "generate_meeting_summary m (u ''en'') ! 2 = 77"
    by (simp add: summary_en_text en_not_he) (simp add: summary_en_1_def u_def)
  ultimately show ?thesis by auto
qed

lemma body_he_rtl:
  \<open>startswith (snd (generate_email_draft cust m (u ''he''))) (u ''<div dir="rtl">'')\<close>
  by (simp add: body_he_text) (simp add: startswith_def body_he_1_def u_def)

text \<open>
  C4. With the language "he" the summary is the Hebrew template, filled and stripped, and
  differs from the summary for "en"; the Hebrew email body opens the right-to-left
  division. With any language other than "he" the summary and the email are those of
  "en".
\<close>

theorem language_selection:
  \<open>generate_meeting_summary m (u ''he'') =
     tl summary_he_1 @ title m @ summary_he_2 @ or_default (m_raw_notes m) no_notes_he @
     butlast summary_he_3
   \<and> generate_meeting_summary m (u ''he'') \<noteq> generate_meeting_summary m (u ''en'')
   \<and> startswith (snd (generate_email_draft cust m (u ''he''))) (u ''<div dir="rtl">'')
   \<and> (language \<noteq> u ''he'' \<longrightarrow>
        generate_meeting_summary m language = generate_meeting_summary m (u ''en'') \<and>
        generate_email_draft cust m language = generate_email_draft cust m (u ''en''))\<close>
proof (intro conjI impI)
  show "generate_meeting_summary m (u ''he'') =
     tl summary_he_1 @ title m @ summary_he_2 @ or_default (m_raw_notes m) no_notes_he @
     butlast summary_he_3"
    by (rule summary_he_text)
  show "generate_meeting_summary m (u ''he'') \<noteq> generate_meeting_summary m (u ''en'')"
    by (rule summary_he_not_en)
  show \<open>startswith (snd (generate_email_draft cust m (u ''he''))) (u ''<div dir="rtl">'')\<close>
    by (rule body_he_rtl)
next
  assume l: "language \<noteq> u ''he''"
  show "generate_meeting_summary m language = generate_meeting_summary m (u ''en'')"
    using l en_not_he by (simp add: generate_meeting_summary_def)
  show "generate_email_draft cust m language = generate_email_draft cust m (u ''en'')"
    using l en_not_he by (simp add: generate_email_draft_def)
qed

theorem language_selection_witness:
  "generate_meeting_summary
      \<lparr>m_id = 161, m_customer_id = 193,
       m_meeting_date = \<lparr>year = 2024, month = 1, day = 15\<rparr>,
       m_title_hint = Some (u ''Kickoff''), m_raw_notes = None, m_created_by = None\<rparr> (u ''fr'')
   = generate_meeting_summary
      \<lparr>m_id = 161, m_customer_id = 193,
       m_meeting_date = \<lparr>year = 2024, month = 1, day = 15\<rparr>,
       m_title_hint = Some (u ''Kickoff''), m_raw_notes = None, m_created_by = None\<rparr> (u ''en'')
   \<and> generate_email_draft None
      \<lparr>m_id = 161, m_customer_id = 193,
       m_meeting_date = \<lparr>year = 2024, month = 1, day = 15\<rparr>,
       m_title_hint = Some (u ''Kickoff''), m_raw_notes = None, m_created_by = None\<rparr> []
   = generate_email_draft None
      \<lparr>m_id = 161, m_customer_id = 193,
       m_meeting_date = \<lparr>year = 2024, month = 1, day = 15\<rparr>,
       m_title_hint = Some (u ''Kickoff''), m_raw_notes = None, m_created_by = None\<rparr> (u ''en'')"
proof -
  let ?m = "\<lparr>m_id = 161, m_customer_id = 193,
       m_meeting_date = \<lparr>year = 2024, month = 1, day = 15\<rparr>,
       m_title_hint = Some (u ''Kickoff''), m_raw_notes = None, m_created_by = None\<rparr>"
  have fr: "u ''fr'' \<noteq> u ''he''" and em: "[] \<noteq> u ''he''"
    by (simp_all add: u_def)
  show ?thesis
    using language_selection [of ?m None "u ''fr''"] language_selection [of ?m None "[]"] fr em
    by blast
qed


section \<open>Text the database takes\<close>


















section \<open>Versions of the generated summaries\<close>

lemma latest_by_Nil: "latest_by v rows = None \<longleftrightarrow> rows = []"
proof -
  have "(sort_key (\<lambda>r. - v r) rows = []) = (rows = [])"
    by (metis length_sort length_0_conv)
  then show ?thesis by (auto simp: latest_by_def split: list.splits)
qed

lemma latest_by_Some:
  assumes "latest_by v rows = Some r"
  shows "r \<in> set rows \<and> v r = Max (v ` set rows)"
proof -
  obtain rs where ys: "sort_key (\<lambda>r. - v r) rows = r # rs"
    using assms by (auto simp: latest_by_def split: list.splits)
  have "set (r # rs) = set rows" using ys by (metis set_sort)
  then have mem: "r \<in> set rows" and sub: "set rows = insert r (set rs)" by auto
  have "sorted (map (\<lambda>r. - v r) (r # rs))" using ys by (metis sorted_sort_key)
  then have "\<forall>y \<in> set rs. v y \<le> v r" by auto
  then have "\<forall>y \<in> set rows. v y \<le> v r" using sub by auto
  then have "Max (v ` set rows) = v r"
    using mem by (intro Max_eqI) auto
  then show ?thesis using mem by simp
qed

lemma next_version:
  "(case latest_by v rows of Some l \<Rightarrow> v l + 1 | None \<Rightarrow> 1) =
     (if rows = [] then 1 else Max (v ` set rows) + 1)"
proof (cases "latest_by v rows")
  case None
  then have "rows = []" by (simp add: latest_by_Nil)
  with None show ?thesis by simp
next
  case (Some r)
  then have "rows \<noteq> []" using latest_by_Nil [of v rows] by auto
  then show ?thesis using Some latest_by_Some [OF Some] by simp
qed

lemma find_append_fresh:
  "\<forall>x \<in> set xs. \<not> P x \<Longrightarrow> find P (xs @ ys) = find P ys"
  by (induction xs) auto

lemma find_Some_holds: "find P xs = Some x \<Longrightarrow> P x"
  by (induction xs) (auto split: if_splits)

lemma uuid_in_customer_1: "pg_uuid_in customer_1 = Some 193"
  by code_simp





section \<open>Cascading deletion\<close>

lemma delete_meeting_fold:
  "fold (\<lambda>m. delete_meeting (m_id m)) ms s =
     s\<lparr>meetings := filter (\<lambda>m. m_id m \<notin> m_id ` set ms) (meetings s),
       meeting_assets := filter (\<lambda>a. a_meeting_id a \<notin> m_id ` set ms) (meeting_assets s),
       meeting_summaries := filter (\<lambda>x. s_meeting_id x \<notin> m_id ` set ms) (meeting_summaries s),
       email_drafts := filter (\<lambda>d. d_meeting_id d \<notin> m_id ` set ms) (email_drafts s)\<rparr>"
proof (induction ms arbitrary: s)
  case Nil
  then show ?case by simp
next
  case (Cons m ms)
  show ?case
    by (simp add: Cons.IH) (auto simp: delete_meeting_def intro!: filter_cong)
qed

text \<open>
  C2. Deleting a stored customer succeeds and leaves no customer with that identifier,
  no contact and no meeting of that customer, and no asset, summary or email draft of
  any meeting that customer had.
\<close>

theorem delete_customer_cascade:
  assumes "customer_by_id uuid_in s cid = Inr (Some c)"
  shows "\<exists>s'. delete_customer uuid_in s cid = (Inr (u ''Customer deleted successfully''), s')
     \<and> (\<forall>x \<in> set (customers s'). c_id x \<noteq> c_id c)
     \<and> (\<forall>k \<in> set (contacts s'). ct_customer_id k \<noteq> c_id c)
     \<and> (\<forall>m \<in> set (meetings s'). m_customer_id m \<noteq> c_id c)
     \<and> (\<forall>m \<in> set (meetings s). m_customer_id m = c_id c \<longrightarrow>
          (\<forall>a \<in> set (meeting_assets s'). a_meeting_id a \<noteq> m_id m) \<and>
          (\<forall>x \<in> set (meeting_summaries s'). s_meeting_id x \<noteq> m_id m) \<and>
          (\<forall>d \<in> set (email_drafts s'). d_meeting_id d \<noteq> m_id m))"
proof -
  let ?cid = "c_id c"
  have "delete_customer uuid_in s cid = (Inr (u ''Customer deleted successfully''), delete_cascade ?cid s)"
    using assms by (simp add: delete_customer_def)
  moreover have "\<forall>x \<in> set (customers (delete_cascade ?cid s)). c_id x \<noteq> ?cid"
    by (simp add: delete_cascade_def Let_def)
  moreover have "\<forall>k \<in> set (contacts (delete_cascade ?cid s)). ct_customer_id k \<noteq> ?cid"
    by (simp add: delete_cascade_def Let_def)
  moreover have "\<forall>m \<in> set (meetings (delete_cascade ?cid s)). m_customer_id m \<noteq> ?cid"
    by (auto simp: delete_cascade_def Let_def delete_meeting_fold)
  moreover have "\<forall>m \<in> set (meetings s). m_customer_id m = ?cid \<longrightarrow>
          (\<forall>a \<in> set (meeting_assets (delete_cascade ?cid s)). a_meeting_id a \<noteq> m_id m) \<and>
          (\<forall>x \<in> set (meeting_summaries (delete_cascade ?cid s)). s_meeting_id x \<noteq> m_id m) \<and>
          (\<forall>d \<in> set (email_drafts (delete_cascade ?cid s)). d_meeting_id d \<noteq> m_id m)"
    by (auto simp: delete_cascade_def Let_def delete_meeting_fold)
  ultimately show ?thesis by blast
qed

theorem delete_customer_cascade_witness:
  "fst (delete_customer pg_uuid_in
          (demo_state\<lparr>meeting_assets := [\<lparr>a_id = 225, a_meeting_id = 161, a_kind = u ''file'',
              a_file_url = u ''data/assets/00000000-0000-0000-0000-0000000000a1/x.pdf'',
              a_file_name = Some (u ''x.pdf'')\<rparr>]\<rparr>)
          customer_1) = Inr (u ''Customer deleted successfully'')
   \<and> list_all (\<lambda>k. ct_customer_id k \<noteq> 193)
        (contacts (snd (delete_customer pg_uuid_in
          (demo_state\<lparr>meeting_assets := [\<lparr>a_id = 225, a_meeting_id = 161, a_kind = u ''file'',
              a_file_url = u ''data/assets/00000000-0000-0000-0000-0000000000a1/x.pdf'',
              a_file_name = Some (u ''x.pdf'')\<rparr>]\<rparr>)
          customer_1)))
   \<and> list_all (\<lambda>a. a_meeting_id a \<noteq> 161)
        (meeting_assets (snd (delete_customer pg_uuid_in
          (demo_state\<lparr>meeting_assets := [\<lparr>a_id = 225, a_meeting_id = 161, a_kind = u ''file'',
              a_file_url = u ''data/assets/00000000-0000-0000-0000-0000000000a1/x.pdf'',
              a_file_name = Some (u ''x.pdf'')\<rparr>]\<rparr>)
          customer_1)))"
proof -
  let ?S = "demo_state\<lparr>meeting_assets := [\<lparr>a_id = 225, a_meeting_id = 161, a_kind = u ''file'',
              a_file_url = u ''data/assets/00000000-0000-0000-0000-0000000000a1/x.pdf'',
              a_file_name = Some (u ''x.pdf'')\<rparr>]\<rparr>"
  have c: "customer_by_id pg_uuid_in ?S customer_1 = Inr (Some demo_customer)"
    by (simp add: customer_by_id_def uuid_in_customer_1 demo_state_def demo_customer_def)
  have i: "c_id demo_customer = 193" by (simp add: demo_customer_def)
  have m: "demo_meeting \<in> set (meetings ?S)" "m_customer_id demo_meeting = 193"
      "m_id demo_meeting = 161"
    by (simp_all add: demo_state_def demo_meeting_def)
  obtain s' where r: "delete_customer pg_uuid_in ?S customer_1 = (Inr (u ''Customer deleted successfully''), s')"
    and k: "\<forall>k \<in> set (contacts s'). ct_customer_id k \<noteq> c_id demo_customer"
    and a: "\<forall>m \<in> set (meetings ?S). m_customer_id m = c_id demo_customer \<longrightarrow>
          (\<forall>a \<in> set (meeting_assets s'). a_meeting_id a \<noteq> m_id m) \<and>
          (\<forall>x \<in> set (meeting_summaries s'). s_meeting_id x \<noteq> m_id m) \<and>
          (\<forall>d \<in> set (email_drafts s'). d_meeting_id d \<noteq> m_id m)"
    using delete_customer_cascade [OF c] by blast
  have "\<forall>a \<in> set (meeting_assets s'). a_meeting_id a \<noteq> 161"
    using a m i by metis
  then show ?thesis using r k i by (simp add: list_all_iff)
qed
section \<open>Rounding an amount\<close>

lemma round_half_away_of_int: "round_half_away (of_int n) = n"
proof -
  have a: "\<lfloor>(of_int n :: rat) + 1 / 2\<rfloor> = n" by linarith
  have b: "\<lfloor>- (of_int n :: rat) + 1 / 2\<rfloor> = - n" by linarith
  show ?thesis unfolding round_half_away_def a b by simp
qed

lemma round_numeric: "round_half_away (numeric_val n * 100) = n"
  by (simp add: numeric_val_def round_half_away_of_int)

lemma round_numeric_val: "dec_val d = numeric_val n \<Longrightarrow> round_half_away (dec_val d * 100) = n"
  by (simp add: round_numeric)

section \<open>Updating a customer\<close>

lemma find_filter_append:
  assumes "c_id c' = k"
  shows "find (\<lambda>x. c_id x = k) (filter (\<lambda>x. c_id x \<noteq> k) xs @ [c']) = Some c'"
  using assms by (induction xs) auto

lemma set_fields_None_iff:
  "set_fields c upd = None \<longleftrightarrow>
     cu_name upd = Given None
     \<or> (\<exists>d. cu_arr_usd upd = Given (Some d) \<and> 10 ^ 14 \<le> \<bar>round_half_away (dec_val d * 100)\<bar>)
     \<or> (\<exists>t. (cu_name upd = Given (Some t) \<or> cu_logo_url upd = Given (Some t)
              \<or> cu_notes upd = Given (Some t)) \<and> \<not> pg_text t)"
  by (cases "cu_name upd"; cases "cu_logo_url upd"; cases "cu_arr_usd upd"; cases "cu_notes upd")
     (auto simp: set_fields_def to_numeric_14_2_def pg_text_opt_def Let_def
           split: option.splits sum.splits if_splits)

lemma set_fields_Some:
  assumes "set_fields c upd = Some c'"
  shows "c_id c' = c_id c \<and> c_created_by c' = c_created_by c
      \<and> c_name c' = (case cu_name upd of Given (Some n) \<Rightarrow> n | _ \<Rightarrow> c_name c)
      \<and> c_logo_url c' = (case cu_logo_url upd of Unset \<Rightarrow> c_logo_url c | Given v \<Rightarrow> v)
      \<and> c_arr_usd c' = (case cu_arr_usd upd of
                           Unset \<Rightarrow> c_arr_usd c
                         | Given None \<Rightarrow> None
                         | Given (Some d) \<Rightarrow> Some (round_half_away (dec_val d * 100)))
      \<and> c_notes c' = (case cu_notes upd of Unset \<Rightarrow> c_notes c | Given v \<Rightarrow> v)"
  using assms
  by (cases "cu_name upd"; cases "cu_logo_url upd"; cases "cu_arr_usd upd"; cases "cu_notes upd")
     (auto simp: set_fields_def to_numeric_14_2_def pg_text_opt_def Let_def
           split: option.splits sum.splits if_splits)

lemma same_amount:
  assumes "Some (dec_val d) = map_option numeric_val a"
  shows "a = Some (round_half_away (dec_val d * 100))"
proof (cases a)
  case None
  then show ?thesis using assms by simp
next
  case (Some n)
  then have "dec_val d = numeric_val n" using assms by simp
  then show ?thesis using Some by (simp add: round_numeric)
qed

lemma no_changes_fields:
  assumes "\<not> changes c upd"
  shows "c_name c = (case cu_name upd of Given (Some n) \<Rightarrow> n | _ \<Rightarrow> c_name c)
      \<and> c_logo_url c = (case cu_logo_url upd of Unset \<Rightarrow> c_logo_url c | Given v \<Rightarrow> v)
      \<and> c_arr_usd c = (case cu_arr_usd upd of
                           Unset \<Rightarrow> c_arr_usd c
                         | Given None \<Rightarrow> None
                         | Given (Some d) \<Rightarrow> Some (round_half_away (dec_val d * 100)))
      \<and> c_notes c = (case cu_notes upd of Unset \<Rightarrow> c_notes c | Given v \<Rightarrow> v)"
proof -
  have n: "c_name c = (case cu_name upd of Given (Some n) \<Rightarrow> n | _ \<Rightarrow> c_name c)"
    using assms by (cases "cu_name upd") (auto simp: changes_def split: option.splits)
  have l: "c_logo_url c = (case cu_logo_url upd of Unset \<Rightarrow> c_logo_url c | Given v \<Rightarrow> v)"
    using assms by (cases "cu_logo_url upd") (auto simp: changes_def)
  have t: "c_notes c = (case cu_notes upd of Unset \<Rightarrow> c_notes c | Given v \<Rightarrow> v)"
    using assms by (cases "cu_notes upd") (auto simp: changes_def)
  have a: "c_arr_usd c = (case cu_arr_usd upd of
                           Unset \<Rightarrow> c_arr_usd c
                         | Given None \<Rightarrow> None
                         | Given (Some d) \<Rightarrow> Some (round_half_away (dec_val d * 100)))"
  proof (cases "cu_arr_usd upd")
    case Unset
    then show ?thesis by simp
  next
    case (Given v)
    then have e: "map_option dec_val v = map_option numeric_val (c_arr_usd c)"
      using assms by (simp add: changes_def)
    show ?thesis
    proof (cases v)
      case None
      then show ?thesis using e Given by simp
    next
      case (Some d)
      then show ?thesis using e Given same_amount [of d "c_arr_usd c"] by simp
    qed
  qed
  from n l a t show ?thesis by blast
qed

text \<open>
  C5, as stated, fails: the handler reads the request with \<^verbatim>\<open>exclude_unset\<close>, so a request
  that carries the name only leaves the stored notes as they were, while the request
  record holds no notes.
\<close>

theorem update_leaves_unset_fields:
  "customer_by_id pg_uuid_in
      (snd (update_customer pg_uuid_in demo_state customer_1
         \<lparr>cu_name = Given (Some (u ''Acme Ltd'')), cu_logo_url = Unset, cu_arr_usd = Unset,
          cu_notes = Unset\<rparr>)) customer_1
     = Inr (Some (demo_customer\<lparr>c_name := u ''Acme Ltd''\<rparr>))
   \<and> c_notes (demo_customer\<lparr>c_name := u ''Acme Ltd''\<rparr>) = Some (u ''old'')
   \<and> field_value (cu_notes \<lparr>cu_name = Given (Some (u ''Acme Ltd'')), cu_logo_url = Unset,
        cu_arr_usd = Unset, cu_notes = Unset\<rparr>) = None"
proof -
  have t: "pg_text (u ''Acme Ltd'')" by (simp add: pg_text_def u_def)
  have ne: "u ''Acme Ltd'' \<noteq> u ''Acme''" by (simp add: u_def)
  show ?thesis
    using t ne
    by (simp add: update_customer_def customer_by_id_def uuid_in_customer_1 changes_def
        set_fields_def field_value_def demo_state_def demo_customer_def)
qed

text \<open>
  C5, amended. For a stored customer, PUT /customers/{id} is a partial update of the stored
  record. When the request changes a value and sets the name to null, carries an amount
  that after rounding to two fractional digits needs more than fourteen digits, or carries
  a text the database does not take, the update is rejected and the stored state is as it
  was. Otherwise the stored customer has each of name, logo_url, arr_usd and notes that
  the request carries replaced by the request's value (the amount rounded to two
  fractional digits, ties away from zero, hence the request's amount itself when that has
  at most two), each field the request does not carry as it was, and the identifier and
  the creator as they were; the other customers are left as they were.
\<close>

theorem update_customer_sets_given_fields:
  assumes c: "customer_by_id uuid_in s cid = Inr (Some c)"
  shows "if changes c upd \<and>
            (cu_name upd = Given None
             \<or> (\<exists>d. cu_arr_usd upd = Given (Some d) \<and>
                       10 ^ 14 \<le> \<bar>round_half_away (dec_val d * 100)\<bar>)
             \<or> (\<exists>t. (cu_name upd = Given (Some t) \<or> cu_logo_url upd = Given (Some t)
                       \<or> cu_notes upd = Given (Some t)) \<and> \<not> pg_text t))
         then update_customer uuid_in s cid upd = (Inl DatabaseError, s)
         else (\<exists>c'. customer_by_id uuid_in (snd (update_customer uuid_in s cid upd)) cid
                       = Inr (Some c')
                 \<and> c_id c' = c_id c \<and> c_created_by c' = c_created_by c
                 \<and> c_name c' = (case cu_name upd of Given (Some n) \<Rightarrow> n | _ \<Rightarrow> c_name c)
                 \<and> c_logo_url c' =
                     (case cu_logo_url upd of Unset \<Rightarrow> c_logo_url c | Given v \<Rightarrow> v)
                 \<and> c_arr_usd c' =
                     (case cu_arr_usd upd of
                        Unset \<Rightarrow> c_arr_usd c
                      | Given None \<Rightarrow> None
                      | Given (Some d) \<Rightarrow> Some (round_half_away (dec_val d * 100)))
                 \<and> c_notes c' = (case cu_notes upd of Unset \<Rightarrow> c_notes c | Given v \<Rightarrow> v)
                 \<and> (\<forall>d n. cu_arr_usd upd = Given (Some d) \<and> dec_val d = numeric_val n \<longrightarrow>
                        c_arr_usd c' = Some n)
                 \<and> filter (\<lambda>x. c_id x \<noteq> c_id c)
                       (customers (snd (update_customer uuid_in s cid upd)))
                     = filter (\<lambda>x. c_id x \<noteq> c_id c) (customers s))"
proof -
  let ?bad = "cu_name upd = Given None
             \<or> (\<exists>d. cu_arr_usd upd = Given (Some d) \<and>
                       10 ^ 14 \<le> \<bar>round_half_away (dec_val d * 100)\<bar>)
             \<or> (\<exists>t. (cu_name upd = Given (Some t) \<or> cu_logo_url upd = Given (Some t)
                       \<or> cu_notes upd = Given (Some t)) \<and> \<not> pg_text t)"
  obtain k where k: "uuid_in cid = Some k"
    and f: "find (\<lambda>x. c_id x = k) (customers s) = Some c"
    using c by (cases "uuid_in cid") (auto simp: customer_by_id_def)
  have ck: "c_id c = k" using find_Some_holds [OF f] .
  have exact: "\<forall>d n. cu_arr_usd upd = Given (Some d) \<and> dec_val d = numeric_val n \<longrightarrow>
         c_arr_usd c' = Some n"
    if "c_arr_usd c' = (case cu_arr_usd upd of
                        Unset \<Rightarrow> c_arr_usd c
                      | Given None \<Rightarrow> None
                      | Given (Some d) \<Rightarrow> Some (round_half_away (dec_val d * 100)))" for c'
    using that by (auto simp: round_numeric)
  show ?thesis
  proof (cases "changes c upd")
    case False
    have u: "update_customer uuid_in s cid upd = (as_customer_response c, s)"
      using c False by (simp add: update_customer_def)
    have fields: "c_name c = (case cu_name upd of Given (Some n) \<Rightarrow> n | _ \<Rightarrow> c_name c)"
      "c_logo_url c = (case cu_logo_url upd of Unset \<Rightarrow> c_logo_url c | Given v \<Rightarrow> v)"
      "c_arr_usd c = (case cu_arr_usd upd of
                           Unset \<Rightarrow> c_arr_usd c
                         | Given None \<Rightarrow> None
                         | Given (Some d) \<Rightarrow> Some (round_half_away (dec_val d * 100)))"
      "c_notes c = (case cu_notes upd of Unset \<Rightarrow> c_notes c | Given v \<Rightarrow> v)"
      using no_changes_fields [OF False] by blast+
    have "\<exists>c'. customer_by_id uuid_in s cid = Inr (Some c')
                 \<and> c_id c' = c_id c \<and> c_created_by c' = c_created_by c
                 \<and> c_name c' = (case cu_name upd of Given (Some n) \<Rightarrow> n | _ \<Rightarrow> c_name c)
                 \<and> c_logo_url c' =
                     (case cu_logo_url upd of Unset \<Rightarrow> c_logo_url c | Given v \<Rightarrow> v)
                 \<and> c_arr_usd c' =
                     (case cu_arr_usd upd of
                        Unset \<Rightarrow> c_arr_usd c
                      | Given None \<Rightarrow> None
                      | Given (Some d) \<Rightarrow> Some (round_half_away (dec_val d * 100)))
                 \<and> c_notes c' = (case cu_notes upd of Unset \<Rightarrow> c_notes c | Given v \<Rightarrow> v)
                 \<and> (\<forall>d n. cu_arr_usd upd = Given (Some d) \<and> dec_val d = numeric_val n \<longrightarrow>
                        c_arr_usd c' = Some n)
                 \<and> filter (\<lambda>x. c_id x \<noteq> c_id c) (customers s)
                     = filter (\<lambda>x. c_id x \<noteq> c_id c) (customers s)"
      by (rule exI [of _ c]) (intro conjI c refl fields exact [OF fields(3)])
    then show ?thesis using False unfolding u by simp
  next
    case True
    show ?thesis
    proof (cases "set_fields c upd")
      case None
      then have bad: ?bad by (simp only: set_fields_None_iff)
      have "update_customer uuid_in s cid upd = (Inl DatabaseError, s)"
        using c True None by (simp add: update_customer_def)
      then show ?thesis using True bad by (simp only: simp_thms if_True)
    next
      case (Some c')
      then have good: "\<not> ?bad" using set_fields_None_iff [of c upd] by simp
      let ?s' = "s\<lparr>customers := filter (\<lambda>x. c_id x \<noteq> c_id c) (customers s) @ [c']\<rparr>"
      have u: "update_customer uuid_in s cid upd = (as_customer_response c', ?s')"
        using c True Some by (simp add: update_customer_def)
      have fields: "c_id c' = c_id c" "c_created_by c' = c_created_by c"
        "c_name c' = (case cu_name upd of Given (Some n) \<Rightarrow> n | _ \<Rightarrow> c_name c)"
        "c_logo_url c' = (case cu_logo_url upd of Unset \<Rightarrow> c_logo_url c | Given v \<Rightarrow> v)"
        "c_arr_usd c' = (case cu_arr_usd upd of
                           Unset \<Rightarrow> c_arr_usd c
                         | Given None \<Rightarrow> None
                         | Given (Some d) \<Rightarrow> Some (round_half_away (dec_val d * 100)))"
        "c_notes c' = (case cu_notes upd of Unset \<Rightarrow> c_notes c | Given v \<Rightarrow> v)"
        using set_fields_Some [OF Some] by blast+
      have stored: "customer_by_id uuid_in ?s' cid = Inr (Some c')"
        using k ck fields(1) by (simp add: customer_by_id_def find_filter_append)
      have others: "filter (\<lambda>x. c_id x \<noteq> c_id c) (customers ?s')
                     = filter (\<lambda>x. c_id x \<noteq> c_id c) (customers s)"
        using fields(1) by simp
      have "\<exists>c'. customer_by_id uuid_in ?s' cid = Inr (Some c')
                 \<and> c_id c' = c_id c \<and> c_created_by c' = c_created_by c
                 \<and> c_name c' = (case cu_name upd of Given (Some n) \<Rightarrow> n | _ \<Rightarrow> c_name c)
                 \<and> c_logo_url c' =
                     (case cu_logo_url upd of Unset \<Rightarrow> c_logo_url c | Given v \<Rightarrow> v)
                 \<and> c_arr_usd c' =
                     (case cu_arr_usd upd of
                        Unset \<Rightarrow> c_arr_usd c
                      | Given None \<Rightarrow> None
                      | Given (Some d) \<Rightarrow> Some (round_half_away (dec_val d * 100)))
                 \<and> c_notes c' = (case cu_notes upd of Unset \<Rightarrow> c_notes c | Given v \<Rightarrow> v)
                 \<and> (\<forall>d n. cu_arr_usd upd = Given (Some d) \<and> dec_val d = numeric_val n \<longrightarrow>
                        c_arr_usd c' = Some n)
                 \<and> filter (\<lambda>x. c_id x \<noteq> c_id c) (customers ?s')
                     = filter (\<lambda>x. c_id x \<noteq> c_id c) (customers s)"
        by (rule exI [of _ c']) (intro conjI stored fields exact [OF fields(5)] others)
      then show ?thesis using good unfolding u by (simp only: simp_thms if_False snd_conv)
    qed
  qed
qed

theorem update_customer_sets_given_fields_witness:
  "customer_by_id pg_uuid_in
      (snd (update_customer pg_uuid_in demo_state customer_1
        \<lparr>cu_name = Unset, cu_logo_url = Given (Some (u ''logo.png'')),
         cu_arr_usd = Given (Some \<lparr>coefficient = 2505, exponent = - 1\<rparr>),
         cu_notes = Given None\<rparr>)) customer_1
     = Inr (Some \<lparr>c_id = 193, c_name = u ''Acme'', c_logo_url = Some (u ''logo.png''),
                  c_arr_usd = Some 25050, c_notes = None, c_created_by = None\<rparr>)
   \<and> update_customer pg_uuid_in demo_state customer_1
        \<lparr>cu_name = Given None, cu_logo_url = Unset, cu_arr_usd = Unset, cu_notes = Unset\<rparr>
     = (Inl DatabaseError, demo_state)"
proof -
  let ?u = "\<lparr>cu_name = Unset, cu_logo_url = Given (Some (u ''logo.png'')),
       cu_arr_usd = Given (Some \<lparr>coefficient = 2505, exponent = - 1\<rparr>), cu_notes = Given None\<rparr>"
  let ?n = "\<lparr>cu_name = Given None, cu_logo_url = Unset, cu_arr_usd = Unset, cu_notes = Unset\<rparr>"
  have c: "customer_by_id pg_uuid_in demo_state customer_1 = Inr (Some demo_customer)"
    by (simp add: customer_by_id_def uuid_in_customer_1 demo_state_def demo_customer_def)
  have v: "dec_val \<lparr>coefficient = 2505, exponent = - 1\<rparr> = numeric_val 25050"
    by (simp add: dec_val_def numeric_val_def)
  have r: "round_half_away (dec_val \<lparr>coefficient = 2505, exponent = - 1\<rparr> * 100) = 25050"
    using v by (rule round_numeric_val)
  have t: "pg_text (u ''logo.png'')" by (simp add: pg_text_def u_def)
  have good: "\<not> (changes demo_customer ?u \<and>
            (cu_name ?u = Given None
             \<or> (\<exists>d. cu_arr_usd ?u = Given (Some d) \<and>
                       10 ^ 14 \<le> \<bar>round_half_away (dec_val d * 100)\<bar>)
             \<or> (\<exists>t. (cu_name ?u = Given (Some t) \<or> cu_logo_url ?u = Given (Some t)
                       \<or> cu_notes ?u = Given (Some t)) \<and> \<not> pg_text t)))"
    using r t by simp
  have bad: "changes demo_customer ?n \<and>
            (cu_name ?n = Given None
             \<or> (\<exists>d. cu_arr_usd ?n = Given (Some d) \<and>
                       10 ^ 14 \<le> \<bar>round_half_away (dec_val d * 100)\<bar>)
             \<or> (\<exists>t. (cu_name ?n = Given (Some t) \<or> cu_logo_url ?n = Given (Some t)
                       \<or> cu_notes ?n = Given (Some t)) \<and> \<not> pg_text t))"
    by (simp add: changes_def)
  obtain c' where
    st: "customer_by_id pg_uuid_in (snd (update_customer pg_uuid_in demo_state customer_1 ?u)) customer_1
          = Inr (Some c')"
    and i: "c_id c' = c_id demo_customer"
    and b: "c_created_by c' = c_created_by demo_customer"
    and n: "c_name c' = (case cu_name ?u of Given (Some n) \<Rightarrow> n | _ \<Rightarrow> c_name demo_customer)"
    and l: "c_logo_url c' = (case cu_logo_url ?u of Unset \<Rightarrow> c_logo_url demo_customer | Given v \<Rightarrow> v)"
    and nt: "c_notes c' = (case cu_notes ?u of Unset \<Rightarrow> c_notes demo_customer | Given v \<Rightarrow> v)"
    and a: "\<forall>d n. cu_arr_usd ?u = Given (Some d) \<and> dec_val d = numeric_val n \<longrightarrow>
             c_arr_usd c' = Some n"
    using update_customer_sets_given_fields [OF c, of ?u] good
    by (simp only: if_False) blast
  have a': "c_arr_usd c' = Some 25050" using a v by simp
  have "c' = \<lparr>c_id = 193, c_name = u ''Acme'', c_logo_url = Some (u ''logo.png''),
            c_arr_usd = Some 25050, c_notes = None, c_created_by = None\<rparr>"
    using i b n l nt a' by (intro customer.equality) (simp_all add: demo_customer_def)
  then have first: "customer_by_id pg_uuid_in (snd (update_customer pg_uuid_in demo_state customer_1 ?u)) customer_1
     = Inr (Some \<lparr>c_id = 193, c_name = u ''Acme'', c_logo_url = Some (u ''logo.png''),
                  c_arr_usd = Some 25050, c_notes = None, c_created_by = None\<rparr>)"
    using st by simp
  have second: "update_customer pg_uuid_in demo_state customer_1 ?n = (Inl DatabaseError, demo_state)"
    using update_customer_sets_given_fields [OF c, of ?n] bad by (simp only: if_True)
  from first second show ?thesis by blast
qed

section \<open>Absent parents\<close>

text \<open>
  The handlers that look their parent up answer an identifier the database reads and that
  names no customer or meeting with the 404 exception, and leave the state as it was.
\<close>

lemma absent_parent_404:
  "(customer_by_id uuid_in s customer_id = Inr None \<longrightarrow>
      get_customer uuid_in s customer_id = (Inl (HTTPException 404 (u ''Customer not found'')), s) \<and>
      update_customer uuid_in s customer_id upd =
        (Inl (HTTPException 404 (u ''Customer not found'')), s) \<and>
      delete_customer uuid_in s customer_id =
        (Inl (HTTPException 404 (u ''Customer not found'')), s) \<and>
      create_contact uuid_in s customer_id contact new_id =
        (Inl (HTTPException 404 (u ''Customer not found'')), s) \<and>
      create_meeting uuid_in s customer_id meeting current_user_id new_id =
        (Inl (HTTPException 404 (u ''Customer not found'')), s))
   \<and> (meeting_by_id uuid_in s meeting_id = Inr None \<longrightarrow>
      get_meeting uuid_in s meeting_id = (Inl (HTTPException 404 (u ''Meeting not found'')), s) \<and>
      upload_meeting_asset uuid_in writable s meeting_id file new_id =
        (Inl (HTTPException 404 (u ''Meeting not found'')), s) \<and>
      create_ai_summary uuid_in s meeting_id language new_id =
        (Inl (HTTPException 404 (u ''Meeting not found'')), s) \<and>
      create_email_draft uuid_in s meeting_id language new_id =
        (Inl (HTTPException 404 (u ''Meeting not found'')), s))"
  by (simp add: get_customer_def update_customer_def delete_customer_def create_contact_def
      create_meeting_def get_meeting_def upload_meeting_asset_def create_ai_summary_def
      create_email_draft_def)

text \<open>An identifier the database does not read as a uuid makes the query fail.\<close>

lemma malformed_id_is_refused:
  "pg_uuid_in (u ''zz'') = None
   \<and> get_customer pg_uuid_in demo_state (u ''zz'') = (Inl DatabaseError, demo_state)
   \<and> create_ai_summary pg_uuid_in demo_state (u ''zz'') (u ''en'') 209
       = (Inl DatabaseError, demo_state)"
proof -
  have z: "pg_uuid_in (u ''zz'') = None" by code_simp
  show ?thesis
    by (simp add: z get_customer_def customer_by_id_def create_ai_summary_def meeting_by_id_def)
qed

lemma validate_all_meetings:
  "validate_all as_meeting_response ms = (if ms = [] then Inr [] else Inl ResponseValidationError)"
  by (cases ms) (auto simp: as_meeting_response_def validate_str_def)

text \<open>
  C6 does not hold of the listing of a customer's meetings. The handler runs its query
  without looking the customer up: for an identifier that names no customer it raises no
  HTTP exception and leaves the state as it was, and with no meeting stored under the
  identifier it answers with the empty list.
\<close>

theorem list_meetings_without_lookup:
  assumes "customer_by_id uuid_in s customer_id = Inr None"
  shows "(\<forall>code detail. fst (get_customer_meetings uuid_in s customer_id)
             \<noteq> Inl (HTTPException code detail))
       \<and> snd (get_customer_meetings uuid_in s customer_id) = s
       \<and> ((\<forall>k. uuid_in customer_id = Some k \<longrightarrow>
               filter (\<lambda>m. m_customer_id m = k) (meetings s) = [])
            \<longrightarrow> get_customer_meetings uuid_in s customer_id = (Inr [], s))"
proof -
  obtain k where k: "uuid_in customer_id = Some k"
    using assms by (cases "uuid_in customer_id") (auto simp: customer_by_id_def)
  show ?thesis
    using k by (simp add: get_customer_meetings_def validate_all_meetings)
qed

theorem list_meetings_without_lookup_witness:
  "customer_by_id pg_uuid_in (demo_state\<lparr>customers := [], contacts := [], meetings := []\<rparr>)
      customer_1 = Inr None
   \<and> get_customer_meetings pg_uuid_in
        (demo_state\<lparr>customers := [], contacts := [], meetings := []\<rparr>) customer_1
       = (Inr [], demo_state\<lparr>customers := [], contacts := [], meetings := []\<rparr>)
   \<and> get_customer pg_uuid_in
        (demo_state\<lparr>customers := [], contacts := [], meetings := []\<rparr>) customer_1
       = (Inl (HTTPException 404 (u ''Customer not found'')),
          demo_state\<lparr>customers := [], contacts := [], meetings := []\<rparr>)"
proof -
  let ?s = "demo_state\<lparr>customers := [], contacts := [], meetings := []\<rparr>"
  have c: "customer_by_id pg_uuid_in ?s customer_1 = Inr None"
    by (simp add: customer_by_id_def uuid_in_customer_1)
  have none: "\<forall>k. pg_uuid_in customer_1 = Some k \<longrightarrow>
               filter (\<lambda>m. m_customer_id m = k) (meetings ?s) = []"
    by simp
  have l: "get_customer_meetings pg_uuid_in ?s customer_1 = (Inr [], ?s)"
    using list_meetings_without_lookup [OF c] none by blast
  have g: "get_customer pg_uuid_in ?s customer_1
       = (Inl (HTTPException 404 (u ''Customer not found'')), ?s)"
    using c by (simp add: get_customer_def)
  from c l g show ?thesis by blast
qed

section \<open>Uploading an asset\<close>







section \<open>Searching customers\<close>

lemma spec_contains_iff:
  "spec_contains lower t name \<longleftrightarrow>
     (\<exists>pre mid post. name = pre @ mid @ post \<and> map lower mid = map lower t)"
proof (induction name)
  case Nil
  then show ?case by auto
next
  case (Cons c cs)
  show ?case
  proof
    assume "spec_contains lower t (c # cs)"
    then consider "map lower (take (length t) (c # cs)) = map lower t" | "spec_contains lower t cs"
      by auto
    then show "\<exists>pre mid post. c # cs = pre @ mid @ post \<and> map lower mid = map lower t"
    proof cases
      case 1
      have "c # cs = [] @ take (length t) (c # cs) @ drop (length t) (c # cs)" by simp
      with 1 show ?thesis by blast
    next
      case 2
      then obtain pre mid post where "cs = pre @ mid @ post" "map lower mid = map lower t"
        using Cons.IH by blast
      then have "c # cs = (c # pre) @ mid @ post" by simp
      then show ?thesis using \<open>map lower mid = map lower t\<close> by blast
    qed
  next
    assume "\<exists>pre mid post. c # cs = pre @ mid @ post \<and> map lower mid = map lower t"
    then obtain pre mid post where e: "c # cs = pre @ mid @ post" and m: "map lower mid = map lower t"
      by blast
    show "spec_contains lower t (c # cs)"
    proof (cases pre)
      case Nil
      have "length mid = length t" using m by (metis length_map)
      then have "take (length t) (c # cs) = mid" using e Nil by simp
      then show ?thesis using m by simp
    next
      case (Cons p pre')
      then have "cs = pre' @ mid @ post" using e by simp
      then have "spec_contains lower t cs" using Cons.IH m by blast
      then show ?thesis by simp
    qed
  qed
qed

lemma ilike_percent:
  "ilike lower (37 # ps) s \<longleftrightarrow> (\<exists>a b. s = a @ b \<and> ilike lower ps b)"
proof (induction s)
  case Nil
  then show ?case by simp
next
  case (Cons c t)
  have "ilike lower (37 # ps) (c # t) \<longleftrightarrow> ilike lower ps (c # t) \<or> ilike lower (37 # ps) t"
    by simp
  also have "\<dots> \<longleftrightarrow> ilike lower ps (c # t) \<or> (\<exists>a b. t = a @ b \<and> ilike lower ps b)"
    using Cons.IH by simp
  also have "\<dots> \<longleftrightarrow> (\<exists>a b. c # t = a @ b \<and> ilike lower ps b)"
  proof
    assume "ilike lower ps (c # t) \<or> (\<exists>a b. t = a @ b \<and> ilike lower ps b)"
    then show "\<exists>a b. c # t = a @ b \<and> ilike lower ps b"
    proof
      assume "ilike lower ps (c # t)"
      then have "c # t = [] @ (c # t) \<and> ilike lower ps (c # t)" by simp
      then show ?thesis by blast
    next
      assume "\<exists>a b. t = a @ b \<and> ilike lower ps b"
      then obtain a b where "t = a @ b" "ilike lower ps b" by blast
      then have "c # t = (c # a) @ b \<and> ilike lower ps b" by simp
      then show ?thesis by blast
    qed
  next
    assume "\<exists>a b. c # t = a @ b \<and> ilike lower ps b"
    then obtain a b where e: "c # t = a @ b" and i: "ilike lower ps b" by blast
    show "ilike lower ps (c # t) \<or> (\<exists>a b. t = a @ b \<and> ilike lower ps b)"
    proof (cases a)
      case Nil
      then show ?thesis using e i by simp
    next
      case (Cons x a')
      then have "t = a' @ b" using e by simp
      then show ?thesis using i by blast
    qed
  qed
  finally show ?case .
qed

lemma ilike_any: "ilike lower [37] s"
  by (induction s) simp_all

lemma ilike_literal:
  assumes "37 \<notin> set t" "95 \<notin> set t" "92 \<notin> set t"
  shows "ilike lower (t @ ps) s \<longleftrightarrow>
     (\<exists>a b. s = a @ b \<and> map lower a = map lower t \<and> ilike lower ps b)"
  using assms
proof (induction t arbitrary: s)
  case Nil
  then show ?case by simp
next
  case (Cons x t)
  then have x: "x \<noteq> 37" "x \<noteq> 95" "x \<noteq> 92"
    and t: "37 \<notin> set t" "95 \<notin> set t" "92 \<notin> set t" by auto
  show ?case
  proof (cases s)
    case Nil
    then show ?thesis using x by simp
  next
    case (Cons c r)
    have "ilike lower ((x # t) @ ps) (c # r) \<longleftrightarrow> lower x = lower c \<and> ilike lower (t @ ps) r"
      using x by simp
    also have "\<dots> \<longleftrightarrow> lower x = lower c \<and>
        (\<exists>a b. r = a @ b \<and> map lower a = map lower t \<and> ilike lower ps b)"
      using Cons.IH [OF t] by simp
    also have "\<dots> \<longleftrightarrow> (\<exists>a b. c # r = a @ b \<and> map lower a = map lower (x # t) \<and> ilike lower ps b)"
    proof
      assume "lower x = lower c \<and> (\<exists>a b. r = a @ b \<and> map lower a = map lower t \<and> ilike lower ps b)"
      then obtain a b where "lower x = lower c" "r = a @ b" "map lower a = map lower t" "ilike lower ps b"
        by blast
      then have "c # r = (c # a) @ b \<and> map lower (c # a) = map lower (x # t) \<and> ilike lower ps b"
        by simp
      then show "\<exists>a b. c # r = a @ b \<and> map lower a = map lower (x # t) \<and> ilike lower ps b"
        by blast
    next
      assume "\<exists>a b. c # r = a @ b \<and> map lower a = map lower (x # t) \<and> ilike lower ps b"
      then obtain a b where e: "c # r = a @ b" and m: "map lower a = map lower (x # t)"
        and i: "ilike lower ps b" by blast
      from m obtain y a' where a: "a = y # a'" by (cases a) auto
      then have "y = c" "r = a' @ b" "lower x = lower c" "map lower a' = map lower t"
        using e m by auto
      then show "lower x = lower c \<and> (\<exists>a b. r = a @ b \<and> map lower a = map lower t \<and> ilike lower ps b)"
        using i by blast
    qed
    finally show ?thesis using Cons by simp
  qed
qed

lemma ilike_contains:
  assumes "37 \<notin> set t" "95 \<notin> set t" "92 \<notin> set t"
  shows "ilike lower (u ''%'' @ t @ u ''%'') name \<longleftrightarrow> spec_contains lower t name"
proof -
  have "ilike lower (u ''%'' @ t @ u ''%'') name \<longleftrightarrow> ilike lower (37 # (t @ [37])) name"
    by (simp add: u_def)
  also have "\<dots> \<longleftrightarrow> (\<exists>a b. name = a @ b \<and> ilike lower (t @ [37]) b)"
    by (rule ilike_percent)
  also have "\<dots> \<longleftrightarrow> (\<exists>a b. name = a @ b \<and>
      (\<exists>m p. b = m @ p \<and> map lower m = map lower t \<and> ilike lower [37] p))"
    by (simp only: ilike_literal [OF assms])
  also have "\<dots> \<longleftrightarrow> (\<exists>pre mid post. name = pre @ mid @ post \<and> map lower mid = map lower t)"
    by (simp only: ilike_any) blast
  also have "\<dots> \<longleftrightarrow> spec_contains lower t name"
    by (simp only: spec_contains_iff)
  finally show ?thesis .
qed


lemma search_rows_plain_term:
  assumes "t \<noteq> []" and "37 \<notin> set t" and "95 \<notin> set t" and "92 \<notin> set t"
  shows "search_rows lower s (Some t) = filter (\<lambda>c. spec_contains lower t (c_name c)) (customers s)"
  using assms(1) by (simp add: search_rows_def ilike_contains [OF assms(2-4)])

lemma ilike_underscore_step:
  "ilike lower (95 # ps) s = (case s of [] \<Rightarrow> False | _ # t \<Rightarrow> ilike lower ps t)"
  by simp

lemma ilike_one: "ilike lower [95, 37] b \<longleftrightarrow> b \<noteq> []"
  by (cases b) (simp_all add: ilike_underscore_step ilike_any del: ilike.simps)

lemma ilike_underscore: "ilike lower [37, 95, 37] name \<longleftrightarrow> name \<noteq> []"
proof -
  have "ilike lower (37 # [95, 37]) name \<longleftrightarrow> (\<exists>a b. name = a @ b \<and> ilike lower [95, 37] b)"
    by (rule ilike_percent)
  also have "\<dots> \<longleftrightarrow> (\<exists>a b. name = a @ b \<and> b \<noteq> [])"
    by (simp only: ilike_one)
  also have "\<dots> \<longleftrightarrow> name \<noteq> []"
    by (metis append_Nil append_is_Nil_conv)
  finally show ?thesis .
qed

lemma validate_all_customers:
  "validate_all as_customer_response cs = (if cs = [] then Inr [] else Inl ResponseValidationError)"
  by (cases cs) (auto simp: as_customer_response_def validate_str_def)

text \<open>
  C8 does not hold. The term is pasted into the pattern unescaped, where an underscore
  stands for any one character: the search for an underscore selects every customer with
  a non-empty name. And the route validates every selected row against a response model
  whose identifier is a string, which a stored identifier is not: a search the database
  accepts and that selects a row answers with the validation error.
\<close>

theorem search_pattern_and_response:
  "search_rows lower s (Some (u ''_'')) = filter (\<lambda>c. c_name c \<noteq> []) (customers s)
   \<and> (pg_text t \<and> 0 \<le> offset \<and> offset < 2 ^ 63 \<and> 0 \<le> limit \<and> limit < 2 ^ 63
        \<and> take (nat limit) (drop (nat offset) (search_rows lower s (Some t))) \<noteq> []
      \<longrightarrow> get_customers lower s (Some t) limit offset = (Inl ResponseValidationError, s))"
proof -
  have a: "search_rows lower s (Some (u ''_'')) = filter (\<lambda>c. c_name c \<noteq> []) (customers s)"
  proof -
    have p: "u ''%'' @ u ''_'' @ u ''%'' = [37, 95, 37]" and n: "u ''_'' \<noteq> []"
      by (simp_all add: u_def)
    show ?thesis
      by (simp add: search_rows_def n p ilike_underscore del: ilike.simps)
  qed
  have b: "get_customers lower s (Some t) limit offset = (Inl ResponseValidationError, s)"
    if "pg_text t \<and> 0 \<le> offset \<and> offset < 2 ^ 63 \<and> 0 \<le> limit \<and> limit < 2 ^ 63
        \<and> take (nat limit) (drop (nat offset) (search_rows lower s (Some t))) \<noteq> []"
    using that by (simp add: get_customers_def validate_all_customers)
  from a b show ?thesis by blast
qed

theorem search_pattern_and_response_witness:
  "search_rows ascii_lower demo_state (Some (u ''_'')) = [demo_customer]
   \<and> \<not> spec_contains ascii_lower (u ''_'') (c_name demo_customer)
   \<and> get_customers ascii_lower demo_state (Some (u ''_'')) 50 0
       = (Inl ResponseValidationError, demo_state)
   \<and> spec_contains ascii_lower (u ''ACM'') (c_name demo_customer)
   \<and> get_customers ascii_lower demo_state (Some (u ''ACM'')) 50 0
       = (Inl ResponseValidationError, demo_state)"
proof -
  have cs: "customers demo_state = [demo_customer]" by (simp add: demo_state_def)
  have nm: "c_name demo_customer \<noteq> []" by (simp add: demo_customer_def u_def)
  have r1: "search_rows ascii_lower demo_state (Some (u ''_'')) = [demo_customer]"
    using search_pattern_and_response [of ascii_lower demo_state] cs nm by simp
  have n1: "\<not> spec_contains ascii_lower (u ''_'') (c_name demo_customer)"
    by (simp add: demo_customer_def u_def ascii_lower_def)
  have t1: "pg_text (u ''_'')" and t2: "pg_text (u ''ACM'')" by (simp_all add: pg_text_def u_def)
  have g1: "get_customers ascii_lower demo_state (Some (u ''_'')) 50 0
       = (Inl ResponseValidationError, demo_state)"
    using search_pattern_and_response [of ascii_lower demo_state "u ''_''" 0 50] r1 t1 by simp
  have p: "u ''ACM'' \<noteq> []" "37 \<notin> set (u ''ACM'')" "95 \<notin> set (u ''ACM'')" "92 \<notin> set (u ''ACM'')"
    by (simp_all add: u_def)
  have c2: "spec_contains ascii_lower (u ''ACM'') (c_name demo_customer)"
    by (simp add: demo_customer_def u_def ascii_lower_def)
  have r2: "search_rows ascii_lower demo_state (Some (u ''ACM'')) = [demo_customer]"
    using search_rows_plain_term [OF p, of ascii_lower demo_state] cs c2 by simp
  have g2: "get_customers ascii_lower demo_state (Some (u ''ACM'')) 50 0
       = (Inl ResponseValidationError, demo_state)"
    using search_pattern_and_response [of ascii_lower demo_state "u ''ACM''" 0 50] r2 t2 by simp
  from r1 n1 g1 c2 g2 show ?thesis by blast
qed

section \<open>Creating and fetching a customer\<close>

lemma as_customer_response_fails: "as_customer_response c = Inl ResponseValidationError"
  by (simp add: as_customer_response_def validate_str_def)

text \<open>
  C9 does not hold. For a fresh key and a request the database accepts, the customer is
  stored with the name and the notes of the request and its amount rounded to two
  fractional digits (0 when the request carries none), but the creation answers with the
  validation error of the response model, whose identifier is a string where the stored
  one is a uuid, and so does the fetch under the string of the new identifier: no record
  and no identifier come back.
\<close>

theorem create_then_fetch_answers:
  assumes fresh: "new_id \<notin> c_id ` set (customers s)"
    and texts: "pg_text (cc_name req) \<and> pg_text_opt (cc_logo_url req) \<and> pg_text_opt (cc_notes req)"
    and amount: "\<forall>d. cc_arr_usd req = Some d \<longrightarrow> \<bar>round_half_away (dec_val d * 100)\<bar> < 10 ^ 14"
    and uuid: "uuid_in (uuid_str new_id) = Some new_id"
  shows "\<exists>row.
      create_customer s req uid new_id =
        (Inl ResponseValidationError, s\<lparr>customers := customers s @ [row]\<rparr>)
      \<and> c_id row = new_id \<and> c_name row = cc_name req \<and> c_notes row = cc_notes req
      \<and> c_arr_usd row = (case cc_arr_usd req of
                            None \<Rightarrow> Some 0
                          | Some d \<Rightarrow> Some (round_half_away (dec_val d * 100)))
      \<and> get_customer uuid_in (s\<lparr>customers := customers s @ [row]\<rparr>) (uuid_str new_id) =
          (Inl ResponseValidationError, s\<lparr>customers := customers s @ [row]\<rparr>)"
proof -
  let ?arr = "case cc_arr_usd req of None \<Rightarrow> 0 | Some d \<Rightarrow> round_half_away (dec_val d * 100)"
  let ?row = "\<lparr>c_id = new_id, c_name = cc_name req, c_logo_url = cc_logo_url req,
      c_arr_usd = Some ?arr, c_notes = cc_notes req, c_created_by = Some uid\<rparr>"
  let ?s' = "s\<lparr>customers := customers s @ [?row]\<rparr>"
  have a: "(case cc_arr_usd req of None \<Rightarrow> Inr 0 | Some d \<Rightarrow> to_numeric_14_2 d) = Inr ?arr"
    using amount by (cases "cc_arr_usd req") (simp_all add: to_numeric_14_2_def Let_def)
  have cr: "create_customer s req uid new_id = (Inl ResponseValidationError, ?s')"
    unfolding create_customer_def a using fresh texts
    by (simp add: Let_def as_customer_response_fails)
  have "\<forall>x \<in> set (customers s). \<not> c_id x = new_id" using fresh by auto
  then have "find (\<lambda>x. c_id x = new_id) (customers s @ [?row]) = Some ?row"
    by (simp add: find_append_fresh)
  then have g: "get_customer uuid_in ?s' (uuid_str new_id) = (Inl ResponseValidationError, ?s')"
    using uuid by (simp add: get_customer_def customer_by_id_def as_customer_response_fails)
  have arr: "c_arr_usd ?row = (case cc_arr_usd req of
                            None \<Rightarrow> Some 0
                          | Some d \<Rightarrow> Some (round_half_away (dec_val d * 100)))"
    by (cases "cc_arr_usd req") simp_all
  show ?thesis
    by (rule exI [of _ ?row]) (intro conjI cr g arr, simp_all)
qed

theorem create_then_fetch_answers_witness:
  "create_customer demo_state
      \<lparr>cc_name = u ''Beta'', cc_logo_url = None,
       cc_arr_usd = Some \<lparr>coefficient = 12345, exponent = - 1\<rparr>, cc_notes = Some (u ''new'')\<rparr>
      1 194
     = (Inl ResponseValidationError,
        demo_state\<lparr>customers := [demo_customer,
          \<lparr>c_id = 194, c_name = u ''Beta'', c_logo_url = None, c_arr_usd = Some 123450,
           c_notes = Some (u ''new''), c_created_by = Some 1\<rparr>]\<rparr>)
   \<and> uuid_str 194 = u ''00000000-0000-0000-0000-0000000000c2''
   \<and> get_customer pg_uuid_in
        (demo_state\<lparr>customers := [demo_customer,
          \<lparr>c_id = 194, c_name = u ''Beta'', c_logo_url = None, c_arr_usd = Some 123450,
           c_notes = Some (u ''new''), c_created_by = Some 1\<rparr>]\<rparr>)
        (u ''00000000-0000-0000-0000-0000000000c2'')
     = (Inl ResponseValidationError,
        demo_state\<lparr>customers := [demo_customer,
          \<lparr>c_id = 194, c_name = u ''Beta'', c_logo_url = None, c_arr_usd = Some 123450,
           c_notes = Some (u ''new''), c_created_by = Some 1\<rparr>]\<rparr>)"
proof -
  let ?r = "\<lparr>cc_name = u ''Beta'', cc_logo_url = None,
      cc_arr_usd = Some \<lparr>coefficient = 12345, exponent = - 1\<rparr>, cc_notes = Some (u ''new'')\<rparr>"
  let ?c = "\<lparr>c_id = 194, c_name = u ''Beta'', c_logo_url = None, c_arr_usd = Some 123450,
            c_notes = Some (u ''new''), c_created_by = Some 1\<rparr>"
  have cs: "customers demo_state = [demo_customer]" by (simp add: demo_state_def)
  have fresh: "194 \<notin> c_id ` set (customers demo_state)"
    by (simp add: demo_state_def demo_customer_def)
  have texts: "pg_text (cc_name ?r) \<and> pg_text_opt (cc_logo_url ?r) \<and> pg_text_opt (cc_notes ?r)"
    by (simp add: pg_text_def pg_text_opt_def u_def)
  have v: "dec_val \<lparr>coefficient = 12345, exponent = - 1\<rparr> = numeric_val 123450"
    by (simp add: dec_val_def numeric_val_def)
  have r: "round_half_away (dec_val \<lparr>coefficient = 12345, exponent = - 1\<rparr> * 100) = 123450"
    using v by (rule round_numeric_val)
  have amount: "\<forall>d. cc_arr_usd ?r = Some d \<longrightarrow> \<bar>round_half_away (dec_val d * 100)\<bar> < 10 ^ 14"
    using r by simp
  have str: "uuid_str 194 = u ''00000000-0000-0000-0000-0000000000c2''" by code_simp
  have uuid: "pg_uuid_in (uuid_str 194) = Some 194" by code_simp
  obtain row where
    cr: "create_customer demo_state ?r 1 194 =
        (Inl ResponseValidationError, demo_state\<lparr>customers := customers demo_state @ [row]\<rparr>)"
    and i: "c_id row = 194" and n: "c_name row = cc_name ?r" and nt: "c_notes row = cc_notes ?r"
    and a: "c_arr_usd row = (case cc_arr_usd ?r of
                            None \<Rightarrow> Some 0
                          | Some d \<Rightarrow> Some (round_half_away (dec_val d * 100)))"
    and g: "get_customer pg_uuid_in (demo_state\<lparr>customers := customers demo_state @ [row]\<rparr>)
              (uuid_str 194) =
          (Inl ResponseValidationError, demo_state\<lparr>customers := customers demo_state @ [row]\<rparr>)"
    using create_then_fetch_answers [where uuid_in = pg_uuid_in, OF fresh texts amount uuid, of 1]
    by blast
  have e: "create_customer demo_state ?r 1 194 =
      (Inl ResponseValidationError, demo_state\<lparr>customers := customers demo_state @ [?c]\<rparr>)"
    using fresh texts r
    by (simp add: create_customer_def to_numeric_14_2_def Let_def as_customer_response_fails)
  have "demo_state\<lparr>customers := customers demo_state @ [row]\<rparr>
      = demo_state\<lparr>customers := customers demo_state @ [?c]\<rparr>"
    using cr e by simp
  then have "customers (demo_state\<lparr>customers := customers demo_state @ [row]\<rparr>)
      = customers (demo_state\<lparr>customers := customers demo_state @ [?c]\<rparr>)"
    by (rule arg_cong)
  then have row: "row = ?c" by simp
  show ?thesis
    using cr g unfolding row str cs by simp
qed


section \<open>Recipients of an email draft\<close>







end
